theory Spec2Isabelle
  imports Complex_Main
begin

text \<open>
  The script of the CVSS converter page: the vector codec (\<open>generateVector\<close>,
  \<open>parseVector\<close>), the score engine (\<open>calculateCVSSv3Score\<close>, \<open>calculateCVSSv4Score\<close>,
  \<open>roundUp\<close>, \<open>getSeverity\<close>) and the converter (\<open>convertVector\<close>, \<open>maxImpact\<close>).  The two
  global variables \<open>currentVersion\<close> and \<open>currentMetrics\<close> form a state that is passed
  explicitly.  Of what the functions write to the page only the alerts are kept: they are
  the errors of the parser.  An exception that nothing catches ends the function that was
  called from the page; it is part of the result.
\<close>

section \<open>JavaScript numbers\<close>

text \<open>
  The calculator computes with JavaScript numbers, which are IEEE 754 binary64 values.
  A finite double is modelled by the rational it denotes; \<open>None\<close> is NaN, which is also
  what \<open>undefined\<close> becomes as soon as it enters an arithmetic operation.  Every arithmetic
  operation computes the exact rational result and rounds it to the nearest double, ties
  to even (\<open>rnd\<close>, on numerator and denominator).  Exponent overflow to an infinity is left
  out: the weights are at most 10 in magnitude.  The two zeros are identified.
\<close>

type_synonym jsnum = "rat option"

function bitlength :: "int \<Rightarrow> int" where
  "bitlength n = (if n \<le> 0 then 0 else 1 + bitlength (n div 2))"
  by pat_completeness auto
termination
  by (relation "measure nat") auto

declare bitlength.simps [simp del]

definition ilog2 :: "int \<Rightarrow> int \<Rightarrow> int" where
  \<comment> \<open>for \<open>0 < p\<close> and \<open>0 < q\<close>: the exponent \<open>e\<close> with \<open>2 ^ e \<le> p / q < 2 ^ (e + 1)\<close>\<close>
  "ilog2 p q = (let d = bitlength p - bitlength q
                in if (if 0 \<le> d then 2 ^ nat d * q \<le> p else q \<le> p * 2 ^ nat (- d))
                   then d else d - 1)"

definition round_half_even :: "int \<Rightarrow> int \<Rightarrow> int" where
  \<comment> \<open>for \<open>0 < d\<close>: the integer nearest to \<open>n / d\<close>, the even one of two that are equally near\<close>
  "round_half_even n d = (let f = n div d; r = n mod d
     in if 2 * r < d then f else if d < 2 * r then f + 1 else if even f then f else f + 1)"

definition rnd_frac :: "int \<Rightarrow> int \<Rightarrow> rat" where
  \<comment> \<open>\<open>p / q\<close> to 53 significant bits: a multiple of \<open>2 ^ k\<close>, where \<open>k\<close> is 52 below the
     exponent of \<open>p / q\<close> and never below \<open>- 1074\<close>\<close>
  "rnd_frac p q = (if p = 0 then 0
     else let k = max (ilog2 \<bar>p\<bar> q) (- 1022) - 52
          in if 0 \<le> k then of_int (round_half_even p (q * 2 ^ nat k) * 2 ^ nat k)
             else Fract (round_half_even (p * 2 ^ nat (- k)) q) (2 ^ nat (- k)))"

definition rnd :: "rat \<Rightarrow> rat" where
  "rnd x = (case quotient_of x of (p, q) \<Rightarrow> rnd_frac p q)"

definition lit :: "rat \<Rightarrow> jsnum" where
  \<comment> \<open>a numeric literal of the source\<close>
  "lit x = Some (rnd x)"

fun fadd :: "jsnum \<Rightarrow> jsnum \<Rightarrow> jsnum" where
  "fadd (Some x) (Some y) = Some (rnd (x + y))"
| "fadd _ _ = None"

fun fsub :: "jsnum \<Rightarrow> jsnum \<Rightarrow> jsnum" where
  "fsub (Some x) (Some y) = Some (rnd (x - y))"
| "fsub _ _ = None"

fun fmul :: "jsnum \<Rightarrow> jsnum \<Rightarrow> jsnum" where
  "fmul (Some x) (Some y) = Some (rnd (x * y))"
| "fmul _ _ = None"

fun fdiv :: "jsnum \<Rightarrow> jsnum \<Rightarrow> jsnum" where
  \<comment> \<open>a zero divisor gives no finite double; the only divisor in the source is the literal 10\<close>
  "fdiv (Some x) (Some y) = (if y = 0 then None else Some (rnd (x / y)))"
| "fdiv _ _ = None"

fun fle :: "jsnum \<Rightarrow> jsnum \<Rightarrow> bool" where
  "fle (Some x) (Some y) = (x \<le> y)"
| "fle _ _ = False"

fun flt :: "jsnum \<Rightarrow> jsnum \<Rightarrow> bool" where
  "flt (Some x) (Some y) = (x < y)"
| "flt _ _ = False"

fun fge :: "jsnum \<Rightarrow> jsnum \<Rightarrow> bool" where
  "fge (Some x) (Some y) = (y \<le> x)"
| "fge _ _ = False"

fun feq :: "jsnum \<Rightarrow> jsnum \<Rightarrow> bool" where
  "feq (Some x) (Some y) = (x = y)"
| "feq _ _ = False"

fun Math_min :: "jsnum \<Rightarrow> jsnum \<Rightarrow> jsnum" where
  "Math_min (Some x) (Some y) = Some (min x y)"
| "Math_min _ _ = None"

fun Math_max :: "jsnum \<Rightarrow> jsnum \<Rightarrow> jsnum" where
  "Math_max (Some x) (Some y) = Some (max x y)"
| "Math_max _ _ = None"

fun Math_ceil :: "jsnum \<Rightarrow> jsnum" where
  "Math_ceil (Some x) = Some (of_int \<lceil>x\<rceil>)"
| "Math_ceil None = None"

section \<open>Objects, strings and the page state\<close>

text \<open>
  A metrics object is a map from property names to string values; reading a property
  that is not there gives \<open>None\<close> (\<open>undefined\<close>).  The metrics are only read at the names
  of metrics, none of which is inherited.  The weight tables are read at the values of
  metrics, which may be any string: there a name can be found in the table itself, or in
  \<open>Object.prototype\<close>, or not at all (\<open>getProp\<close>).
  Strings are lists of characters with codes below 256; of the white space that \<open>trim\<close>
  removes, these are the seven characters of \<open>isWhiteSpace\<close>.
\<close>

type_synonym metrics = "string \<rightharpoonup> string"

datatype js_error = TypeError

record cvss_state =
  currentVersion :: nat
  currentMetrics :: metrics

fun truthy :: "string option \<Rightarrow> bool" where
  "truthy None = False"
| "truthy (Some s) = (s \<noteq> [])"

definition str :: "string option \<Rightarrow> string" where
  \<comment> \<open>a value turned into a string: in a template literal, or as a property name\<close>
  "str v = (case v of None \<Rightarrow> ''undefined'' | Some s \<Rightarrow> s)"

datatype 'a property =
    Missing       \<comment> \<open>no such property: \<open>undefined\<close>\<close>
  | Own 'a        \<comment> \<open>a property of the object literal\<close>
  | Inherited     \<comment> \<open>a member of \<open>Object.prototype\<close>: a function, or that object itself\<close>

definition objectPrototypeNames :: "string list" where
  "objectPrototypeNames =
     [''constructor'', ''hasOwnProperty'', ''isPrototypeOf'', ''propertyIsEnumerable'',
      ''toLocaleString'', ''toString'', ''valueOf'', ''__proto__'', ''__defineGetter__'',
      ''__defineSetter__'', ''__lookupGetter__'', ''__lookupSetter__'']"

definition getProp :: "(string \<rightharpoonup> 'a) \<Rightarrow> string option \<Rightarrow> 'a property" where
  \<comment> \<open>\<open>table[key]\<close> on an object literal with the given own properties\<close>
  "getProp table key =
     (case table (str key) of
        Some v \<Rightarrow> Own v
      | None \<Rightarrow> if str key \<in> set objectPrototypeNames then Inherited else Missing)"

definition idx :: "(string \<rightharpoonup> rat) \<Rightarrow> string option \<Rightarrow> jsnum" where
  \<comment> \<open>\<open>table[key]\<close> of a table of numbers, as an operand of \<open>*\<close> or \<open>-\<close>: a number of the
     table is itself; \<open>undefined\<close> and the members of \<open>Object.prototype\<close> become NaN\<close>
  "idx table key = (case getProp table key of Own x \<Rightarrow> Some x | _ \<Rightarrow> None)"

text \<open>
  What the run-time system decides and the language leaves open is a parameter.
  \<open>Math.pow\<close> is only required to approximate the power.  A member of \<open>Object.prototype\<close>
  that the table of PR weights yields is indexed with the Scope, and the result enters a
  product: \<open>memberIndexed\<close> is the number it becomes there, unless reading it throws.  Two
  such members compared with \<open>>=\<close> are compared as the strings they convert to
  (\<open>memberGe\<close>).
\<close>

record runtime =
  Math_pow :: "jsnum \<Rightarrow> jsnum \<Rightarrow> jsnum"
  memberIndexed :: "string \<Rightarrow> string option \<Rightarrow> js_error + jsnum"
  memberGe :: "string \<Rightarrow> string \<Rightarrow> bool"

definition setProp :: "metrics \<Rightarrow> string \<Rightarrow> string \<Rightarrow> metrics" where
  \<comment> \<open>\<open>obj[key] = value\<close> on an object literal: assigning a string to \<open>__proto__\<close> runs the
     inherited setter, which ignores a value that is not an object\<close>
  "setProp obj key v = (if key = ''__proto__'' then obj else obj(key \<mapsto> v))"

definition isWhiteSpace :: "char \<Rightarrow> bool" where
  "isWhiteSpace c \<longleftrightarrow> c \<in> {CHR 0x09, CHR 0x0A, CHR 0x0B, CHR 0x0C, CHR 0x0D, CHR 0x20, CHR 0xA0}"

definition js_trim :: "string \<Rightarrow> string" where
  \<comment> \<open>\<open>s.trim()\<close>\<close>
  "js_trim s = rev (dropWhile isWhiteSpace (rev (dropWhile isWhiteSpace s)))"

definition startsWith :: "string \<Rightarrow> string \<Rightarrow> bool" where
  \<comment> \<open>\<open>s.startsWith(p)\<close>\<close>
  "startsWith s p \<longleftrightarrow> take (length p) s = p"

fun js_split :: "char \<Rightarrow> string \<Rightarrow> string list" where
  \<comment> \<open>\<open>s.split(sep)\<close> for a separator of one character: a piece between any two separators,
     one before the first and one after the last, empty pieces kept\<close>
  "js_split sep [] = [[]]"
| "js_split sep (c # cs) =
     (if c = sep then [] # js_split sep cs
      else (case js_split sep cs of [] \<Rightarrow> [[c]] | p # ps \<Rightarrow> (c # p) # ps))"

section \<open>Score engine\<close>

definition CVSS3_WEIGHTS_AV :: "string \<rightharpoonup> rat" where
  "CVSS3_WEIGHTS_AV = map_of [(''N'', rnd 0.85), (''A'', rnd 0.62), (''L'', rnd 0.55), (''P'', rnd 0.2)]"

definition CVSS3_WEIGHTS_AC :: "string \<rightharpoonup> rat" where
  "CVSS3_WEIGHTS_AC = map_of [(''L'', rnd 0.77), (''H'', rnd 0.44)]"

definition CVSS3_WEIGHTS_PR :: "string \<rightharpoonup> (string \<rightharpoonup> rat)" where
  "CVSS3_WEIGHTS_PR = map_of
     [(''N'', map_of [(''U'', rnd 0.85), (''C'', rnd 0.85)]),
      (''L'', map_of [(''U'', rnd 0.62), (''C'', rnd 0.68)]),
      (''H'', map_of [(''U'', rnd 0.27), (''C'', rnd 0.50)])]"

definition CVSS3_WEIGHTS_UI :: "string \<rightharpoonup> rat" where
  "CVSS3_WEIGHTS_UI = map_of [(''N'', rnd 0.85), (''R'', rnd 0.62)]"

definition CVSS3_WEIGHTS_C :: "string \<rightharpoonup> rat" where
  "CVSS3_WEIGHTS_C = map_of [(''N'', rnd 0), (''L'', rnd 0.22), (''H'', rnd 0.56)]"

definition CVSS3_WEIGHTS_I :: "string \<rightharpoonup> rat" where
  "CVSS3_WEIGHTS_I = map_of [(''N'', rnd 0), (''L'', rnd 0.22), (''H'', rnd 0.56)]"

definition CVSS3_WEIGHTS_A :: "string \<rightharpoonup> rat" where
  "CVSS3_WEIGHTS_A = map_of [(''N'', rnd 0), (''L'', rnd 0.22), (''H'', rnd 0.56)]"

definition roundUp :: "jsnum \<Rightarrow> jsnum" where
  "roundUp v = fdiv (Math_ceil (fmul v (lit 10))) (lit 10)"

text \<open>
  Indexing \<open>CVSS3_WEIGHTS.PR[PR]\<close> with an unknown \<open>PR\<close> gives \<open>undefined\<close>, and indexing
  that with \<open>S\<close> throws.  Nothing else in the score can throw.
\<close>

definition calculateCVSSv3Score :: "runtime \<Rightarrow> metrics \<Rightarrow> js_error + jsnum" where
  "calculateCVSSv3Score rt m =
     (case (case getProp CVSS3_WEIGHTS_PR (m ''PR'') of
              Missing \<Rightarrow> Inl TypeError
            | Own prTable \<Rightarrow> Inr (idx prTable (m ''S''))
            | Inherited \<Rightarrow> memberIndexed rt (str (m ''PR'')) (m ''S'')) of
        Inl e \<Rightarrow> Inl e
      | Inr prScore \<Rightarrow>
          (let avScore = idx CVSS3_WEIGHTS_AV (m ''AV'');
               acScore = idx CVSS3_WEIGHTS_AC (m ''AC'');
               uiScore = idx CVSS3_WEIGHTS_UI (m ''UI'');
               cScore = idx CVSS3_WEIGHTS_C (m ''C'');
               iScore = idx CVSS3_WEIGHTS_I (m ''I'');
               aScore = idx CVSS3_WEIGHTS_A (m ''A'');
               iss = fsub (lit 1)
                       (fmul (fmul (fsub (lit 1) cScore) (fsub (lit 1) iScore)) (fsub (lit 1) aScore));
               impact =
                 (if m ''S'' = Some ''U'' then fmul (lit 6.42) iss
                  else fsub (fmul (lit 7.52) (fsub iss (lit 0.029)))
                            (fmul (lit 3.25) (Math_pow rt (fsub iss (lit 0.02)) (lit 15))));
               exploitability =
                 fmul (fmul (fmul (fmul (lit 8.22) avScore) acScore) prScore) uiScore;
               baseScore =
                 (if fle impact (lit 0) then lit 0
                  else if m ''S'' = Some ''U'' then Math_min (fadd impact exploitability) (lit 10)
                  else Math_min (fmul (lit 1.08) (fadd impact exploitability)) (lit 10))
           in Inr (roundUp baseScore)))"

definition impactWeight :: "string \<rightharpoonup> rat" where
  \<comment> \<open>the object literal \<open>{ N: 0, L: 0.22, H: 0.56 }\<close>, written six times in the source\<close>
  "impactWeight = map_of [(''N'', rnd 0), (''L'', rnd 0.22), (''H'', rnd 0.56)]"

definition calculateCVSSv4Score :: "metrics \<Rightarrow> jsnum" where
  "calculateCVSSv4Score m =
     (let avWeight = idx (map_of [(''N'', rnd 0.85), (''A'', rnd 0.62), (''L'', rnd 0.55), (''P'', rnd 0.2)]) (m ''AV'');
          acWeight = idx (map_of [(''L'', rnd 0.77), (''H'', rnd 0.44)]) (m ''AC'');
          atWeight = idx (map_of [(''N'', rnd 1.0), (''P'', rnd 0.8)]) (m ''AT'');
          prWeight = idx (map_of [(''N'', rnd 0.85), (''L'', rnd 0.62), (''H'', rnd 0.27)]) (m ''PR'');
          uiWeight = idx (map_of [(''N'', rnd 0.85), (''P'', rnd 0.70), (''A'', rnd 0.62)]) (m ''UI'');
          vcWeight = idx impactWeight (m ''VC'');
          viWeight = idx impactWeight (m ''VI'');
          vaWeight = idx impactWeight (m ''VA'');
          scWeight = idx impactWeight (m ''SC'');
          siWeight = idx impactWeight (m ''SI'');
          saWeight = idx impactWeight (m ''SA'');
          exploitability =
            fmul (fmul (fmul (fmul (fmul (lit 8.22) avWeight) acWeight) atWeight) prWeight) uiWeight;
          vulnImpact = fsub (lit 1)
                         (fmul (fmul (fsub (lit 1) vcWeight) (fsub (lit 1) viWeight)) (fsub (lit 1) vaWeight));
          subImpact = fsub (lit 1)
                        (fmul (fmul (fsub (lit 1) scWeight) (fsub (lit 1) siWeight)) (fsub (lit 1) saWeight));
          impact = fmul (lit 6.42) (Math_max vulnImpact subImpact);
          baseScore = Math_min (fadd impact exploitability) (lit 10)
      in roundUp baseScore)"

definition calculateScore :: "runtime \<Rightarrow> cvss_state \<Rightarrow> js_error + jsnum" where
  "calculateScore rt st =
     (if currentVersion st = 3 then calculateCVSSv3Score rt (currentMetrics st)
      else Inr (calculateCVSSv4Score (currentMetrics st)))"

definition getSeverity :: "jsnum \<Rightarrow> string" where
  "getSeverity score =
     (if feq score (lit 0) then ''None''
      else if flt score (lit 4.0) then ''Low''
      else if flt score (lit 7.0) then ''Medium''
      else if flt score (lit 9.0) then ''High''
      else ''Critical'')"

section \<open>Vector codec\<close>

definition generateVector :: "cvss_state \<Rightarrow> string" where
  "generateVector st =
     (let m = currentMetrics st in
      if currentVersion st = 3 then
        ''CVSS:3.1/AV:'' @ str (m ''AV'') @ ''/AC:'' @ str (m ''AC'') @ ''/PR:'' @ str (m ''PR'')
          @ ''/UI:'' @ str (m ''UI'') @ ''/S:'' @ str (m ''S'') @ ''/C:'' @ str (m ''C'')
          @ ''/I:'' @ str (m ''I'') @ ''/A:'' @ str (m ''A'')
      else
        ''CVSS:4.0/AV:'' @ str (m ''AV'') @ ''/AC:'' @ str (m ''AC'') @ ''/AT:'' @ str (m ''AT'')
          @ ''/PR:'' @ str (m ''PR'') @ ''/UI:'' @ str (m ''UI'') @ ''/VC:'' @ str (m ''VC'')
          @ ''/VI:'' @ str (m ''VI'') @ ''/VA:'' @ str (m ''VA'') @ ''/SC:'' @ str (m ''SC'')
          @ ''/SI:'' @ str (m ''SI'') @ ''/SA:'' @ str (m ''SA''))"

definition defaultV3 :: metrics where
  "defaultV3 = [''AV'' \<mapsto> ''N'', ''AC'' \<mapsto> ''L'', ''PR'' \<mapsto> ''N'', ''UI'' \<mapsto> ''N'', ''S'' \<mapsto> ''U'',
                ''C'' \<mapsto> ''N'', ''I'' \<mapsto> ''N'', ''A'' \<mapsto> ''N'']"

definition defaultV4 :: metrics where
  "defaultV4 = [''AV'' \<mapsto> ''N'', ''AC'' \<mapsto> ''L'', ''AT'' \<mapsto> ''N'', ''PR'' \<mapsto> ''N'', ''UI'' \<mapsto> ''N'',
                ''VC'' \<mapsto> ''N'', ''VI'' \<mapsto> ''N'', ''VA'' \<mapsto> ''N'',
                ''SC'' \<mapsto> ''N'', ''SI'' \<mapsto> ''N'', ''SA'' \<mapsto> ''N'']"

definition updateUI :: "runtime \<Rightarrow> cvss_state \<Rightarrow> js_error option" where
  \<comment> \<open>the exception it ends with, if any: it shows the vector, the score and the severity
     of the current state, and of these only the score can throw\<close>
  "updateUI rt st = (case calculateScore rt st of Inl e \<Rightarrow> Some e | Inr score \<Rightarrow> None)"

definition switchVersion :: "runtime \<Rightarrow> nat \<Rightarrow> cvss_state \<Rightarrow> js_error option \<times> cvss_state" where
  \<comment> \<open>the exception of its call of \<open>updateUI\<close>, if any, and the state after\<close>
  "switchVersion rt version st =
     (let st' = \<lparr>currentVersion = version,
                   currentMetrics = (if version = 3 then defaultV3 else defaultV4)\<rparr>
      in (updateUI rt st', st'))"

datatype parse_error =
    EmptyInput              \<comment> \<open>alert: Please enter a CVSS vector string\<close>
  | InvalidFormat           \<comment> \<open>alert: Invalid CVSS vector string. Must start with ...\<close>
  | MissingMetric string    \<comment> \<open>alert: Missing required metric: ...\<close>

datatype outcome =
    Done                    \<comment> \<open>the function ran to its end without an alert\<close>
  | Alert parse_error       \<comment> \<open>it raised the alert and returned\<close>
  | Uncaught js_error       \<comment> \<open>it was ended by an exception\<close>

fun keyValue :: "string list \<Rightarrow> string option \<times> string option" where
  \<comment> \<open>the destructuring \<open>const [key, value] = ...\<close>\<close>
  "keyValue [] = (None, None)"
| "keyValue [k] = (Some k, None)"
| "keyValue (k # v # rest) = (Some k, Some v)"

fun parseParts :: "string list \<Rightarrow> metrics \<Rightarrow> metrics" where
  \<comment> \<open>the loop over \<open>parts[1], parts[2], ...\<close>\<close>
  "parseParts [] newMetrics = newMetrics"
| "parseParts (part # rest) newMetrics =
     (case keyValue (js_split CHR '':'' part) of
        (Some key, Some v) \<Rightarrow>
          parseParts rest (if key \<noteq> [] \<and> v \<noteq> [] then setProp newMetrics key v else newMetrics)
      | _ \<Rightarrow> parseParts rest newMetrics)"

definition requiredV3 :: "string list" where
  "requiredV3 = [''AV'', ''AC'', ''PR'', ''UI'', ''S'', ''C'', ''I'', ''A'']"

definition requiredV4 :: "string list" where
  "requiredV4 = [''AV'', ''AC'', ''AT'', ''PR'', ''UI'', ''VC'', ''VI'', ''VA'', ''SC'', ''SI'', ''SA'']"

fun firstMissing :: "string list \<Rightarrow> metrics \<Rightarrow> string option" where
  \<comment> \<open>the validation loop, which alerts and returns at the first metric that is not truthy\<close>
  "firstMissing [] newMetrics = None"
| "firstMissing (metric # rest) newMetrics =
     (if \<not> truthy (newMetrics metric) then Some metric else firstMissing rest newMetrics)"

definition parseVector :: "runtime \<Rightarrow> string \<Rightarrow> cvss_state \<Rightarrow> outcome \<times> cvss_state" where
  \<comment> \<open>the text of the input field, and the state before; how the function ended, and the
     state after\<close>
  "parseVector rt input st =
     (let vectorString = js_trim input in
      if vectorString = [] then (Alert EmptyInput, st)
      else if \<not> (startsWith vectorString ''CVSS:3.0'' \<or> startsWith vectorString ''CVSS:3.1''
                  \<or> startsWith vectorString ''CVSS:4.0'')
      then (Alert InvalidFormat, st)
      else
        let version = (if startsWith vectorString ''CVSS:3.0'' \<or> startsWith vectorString ''CVSS:3.1''
                       then 3 else 4);
            (thrown, st1) = (if version \<noteq> currentVersion st then switchVersion rt version st
                             else (None, st))
        in case thrown of
             Some e \<Rightarrow> (Uncaught e, st1)
           | None \<Rightarrow>
               (let parts = js_split CHR ''/'' vectorString;
                    newMetrics = parseParts (tl parts) Map.empty
                in case firstMissing (if version = 3 then requiredV3 else requiredV4) newMetrics of
                     Some metric \<Rightarrow> (Alert (MissingMetric metric), st1)
                   | None \<Rightarrow>
                       (let st2 = st1\<lparr>currentMetrics := newMetrics\<rparr>
                        in case updateUI rt st2 of
                             Some e \<Rightarrow> (Uncaught e, st2)
                           | None \<Rightarrow> (Done, st2))))"

definition initialState :: cvss_state where
  \<comment> \<open>the state that \<open>initializeDefaultMetrics\<close> sets up when the page has loaded\<close>
  "initialState = \<lparr>currentVersion = 3, currentMetrics = defaultV3\<rparr>"

section \<open>Cross-version converter\<close>

definition maxImpact_order :: "string \<rightharpoonup> rat" where
  "maxImpact_order = map_of [(''N'', rnd 0), (''L'', rnd 1), (''H'', rnd 2)]"

definition maxImpact :: "runtime \<Rightarrow> string option \<Rightarrow> string option \<Rightarrow> string option" where
  \<comment> \<open>\<open>>=\<close> compares two numbers as numbers and two members of \<open>Object.prototype\<close> as
     strings; in every other case one side is NaN and the comparison is false\<close>
  "maxImpact rt impact1 impact2 =
     (if (case (getProp maxImpact_order impact1, getProp maxImpact_order impact2) of
            (Own x, Own y) \<Rightarrow> fge (Some x) (Some y)
          | (Inherited, Inherited) \<Rightarrow> memberGe rt (str impact1) (str impact2)
          | _ \<Rightarrow> False)
      then impact1 else impact2)"

text \<open>
  \<open>convertMetrics\<close> is the first half of \<open>convertVector\<close>: it builds the local variables
  \<open>convertedMetrics\<close> and \<open>warnings\<close> from the current state.  A property copied from a
  property that is not there is \<open>undefined\<close>, hence \<open>:=\<close> with an optional value.
\<close>

definition convertMetrics :: "runtime \<Rightarrow> cvss_state \<Rightarrow> metrics \<times> string list" where
  "convertMetrics rt st =
     (let cur = currentMetrics st in
      if currentVersion st = 3 then
        (let c1 = Map.empty(''AV'' := cur ''AV'', ''AC'' := cur ''AC'', ''AT'' := Some ''N'',
                            ''PR'' := cur ''PR'');
             c2 = (if cur ''UI'' = Some ''N'' then c1(''UI'' := Some ''N'') else c1(''UI'' := Some ''P''));
             w2 = (if cur ''UI'' = Some ''N'' then []
                   else [''UI:R mapped to UI:P (Passive). Consider if UI:A (Active) is more appropriate.'']);
             c3 = (if cur ''S'' = Some ''U''
                   then c2(''VC'' := cur ''C'', ''VI'' := cur ''I'', ''VA'' := cur ''A'',
                           ''SC'' := Some ''N'', ''SI'' := Some ''N'', ''SA'' := Some ''N'')
                   else c2(''VC'' := cur ''C'', ''VI'' := cur ''I'', ''VA'' := cur ''A'',
                           ''SC'' := cur ''C'', ''SI'' := cur ''I'', ''SA'' := cur ''A''));
             w3 = (if cur ''S'' = Some ''U'' then w2
                   else w2 @ [''Scope:Changed mapped to both Vulnerable and Subsequent system impacts. Review appropriateness.''])
         in (c3, w3 @ [''AT (Attack Requirements) set to None - no v3 equivalent.'']))
      else
        (let c1 = Map.empty(''AV'' := cur ''AV'', ''AC'' := cur ''AC'', ''PR'' := cur ''PR'');
             c2 = (if cur ''UI'' = Some ''N'' then c1(''UI'' := Some ''N'') else c1(''UI'' := Some ''R''));
             w2 = (if cur ''UI'' = Some ''N'' then []
                   else [''UI:P or UI:A mapped to UI:R (Required). v3 has less granularity.'']);
             hasSubsequentImpact =
               (cur ''SC'' \<noteq> Some ''N'' \<or> cur ''SI'' \<noteq> Some ''N'' \<or> cur ''SA'' \<noteq> Some ''N'');
             c3 = c2(''S'' := Some (if hasSubsequentImpact then ''C'' else ''U''));
             w3 = (if hasSubsequentImpact
                   then w2 @ [''Subsequent system impacts detected - Scope set to Changed.'']
                   else w2);
             c4 = c3(''C'' := maxImpact rt (cur ''VC'') (cur ''SC''),
                     ''I'' := maxImpact rt (cur ''VI'') (cur ''SI''),
                     ''A'' := maxImpact rt (cur ''VA'') (cur ''SA''))
         in (c4, w3 @ [''AT (Attack Requirements) metric has no v3 equivalent and was dropped.'',
                       ''Impact metrics merged from Vulnerable and Subsequent systems (using maximum).''])))"

definition convertVector :: "runtime \<Rightarrow> cvss_state \<Rightarrow> string \<times> string list \<times> js_error option \<times> cvss_state" where
  \<comment> \<open>the vector and the notes put on the page, the exception of the closing
     \<open>switchVersion\<close>, if any, and the state after: \<open>switchVersion\<close> resets the current metrics
     to the defaults of the target version\<close>
  "convertVector rt st =
     (let targetVersion = (if currentVersion st = 3 then 4 else 3);
          (convertedMetrics, warnings) = convertMetrics rt st;
          st1 = \<lparr>currentVersion = targetVersion, currentMetrics = convertedMetrics\<rparr>;
          convertedVector = generateVector st1
      in (convertedVector, warnings, switchVersion rt targetVersion st1))"

section \<open>Legal metric sets\<close>

text \<open>
  The data model of the specification: a metric set of a shape has exactly the keys of
  the shape, each with one of its value codes.  The value codes are the keys of the
  weight tables of the code.
\<close>

definition legalV3 :: "metrics \<Rightarrow> bool" where
  "legalV3 m \<longleftrightarrow>
     dom m = set requiredV3 \<and>
     m ''AV'' \<in> {Some ''N'', Some ''A'', Some ''L'', Some ''P''} \<and>
     m ''AC'' \<in> {Some ''L'', Some ''H''} \<and>
     m ''PR'' \<in> {Some ''N'', Some ''L'', Some ''H''} \<and>
     m ''UI'' \<in> {Some ''N'', Some ''R''} \<and>
     m ''S'' \<in> {Some ''U'', Some ''C''} \<and>
     m ''C'' \<in> {Some ''N'', Some ''L'', Some ''H''} \<and>
     m ''I'' \<in> {Some ''N'', Some ''L'', Some ''H''} \<and>
     m ''A'' \<in> {Some ''N'', Some ''L'', Some ''H''}"

definition legalV4 :: "metrics \<Rightarrow> bool" where
  "legalV4 m \<longleftrightarrow>
     dom m = set requiredV4 \<and>
     m ''AV'' \<in> {Some ''N'', Some ''A'', Some ''L'', Some ''P''} \<and>
     m ''AC'' \<in> {Some ''L'', Some ''H''} \<and>
     m ''AT'' \<in> {Some ''N'', Some ''P''} \<and>
     m ''PR'' \<in> {Some ''N'', Some ''L'', Some ''H''} \<and>
     m ''UI'' \<in> {Some ''N'', Some ''P'', Some ''A''} \<and>
     m ''VC'' \<in> {Some ''N'', Some ''L'', Some ''H''} \<and>
     m ''VI'' \<in> {Some ''N'', Some ''L'', Some ''H''} \<and>
     m ''VA'' \<in> {Some ''N'', Some ''L'', Some ''H''} \<and>
     m ''SC'' \<in> {Some ''N'', Some ''L'', Some ''H''} \<and>
     m ''SI'' \<in> {Some ''N'', Some ''L'', Some ''H''} \<and>
     m ''SA'' \<in> {Some ''N'', Some ''L'', Some ''H''}"

definition legalState :: "cvss_state \<Rightarrow> bool" where
  \<comment> \<open>a legal metric set of either shape, tagged with its version\<close>
  "legalState st \<longleftrightarrow>
     currentVersion st = 3 \<and> legalV3 (currentMetrics st) \<or>
     currentVersion st = 4 \<and> legalV4 (currentMetrics st)"

section \<open>The score formulas of the specification\<close>

text \<open>
  The weight tables as the specification lists them, one function per table, over the
  same number model.
\<close>

definition specWeightAV :: "string option \<Rightarrow> jsnum" where
  "specWeightAV v = (if v = Some ''N'' then lit 0.85 else if v = Some ''A'' then lit 0.62
     else if v = Some ''L'' then lit 0.55 else if v = Some ''P'' then lit 0.20 else None)"

definition specWeightAC :: "string option \<Rightarrow> jsnum" where
  "specWeightAC v = (if v = Some ''L'' then lit 0.77 else if v = Some ''H'' then lit 0.44 else None)"

definition specWeightAT :: "string option \<Rightarrow> jsnum" where
  "specWeightAT v = (if v = Some ''N'' then lit 1.00 else if v = Some ''P'' then lit 0.80 else None)"

definition specWeightPR3 :: "string option \<Rightarrow> string option \<Rightarrow> jsnum" where
  \<comment> \<open>the second argument is the Scope\<close>
  "specWeightPR3 v s =
     (if v = Some ''N'' then (if s = Some ''U'' then lit 0.85 else if s = Some ''C'' then lit 0.85 else None)
      else if v = Some ''L'' then (if s = Some ''U'' then lit 0.62 else if s = Some ''C'' then lit 0.68 else None)
      else if v = Some ''H'' then (if s = Some ''U'' then lit 0.27 else if s = Some ''C'' then lit 0.50 else None)
      else None)"

definition specWeightPR4 :: "string option \<Rightarrow> jsnum" where
  "specWeightPR4 v = (if v = Some ''N'' then lit 0.85 else if v = Some ''L'' then lit 0.62
     else if v = Some ''H'' then lit 0.27 else None)"

definition specWeightUI3 :: "string option \<Rightarrow> jsnum" where
  "specWeightUI3 v = (if v = Some ''N'' then lit 0.85 else if v = Some ''R'' then lit 0.62 else None)"

definition specWeightUI4 :: "string option \<Rightarrow> jsnum" where
  "specWeightUI4 v = (if v = Some ''N'' then lit 0.85 else if v = Some ''P'' then lit 0.70
     else if v = Some ''A'' then lit 0.62 else None)"

definition specWeightImpact :: "string option \<Rightarrow> jsnum" where
  "specWeightImpact v = (if v = Some ''N'' then lit 0 else if v = Some ''L'' then lit 0.22
     else if v = Some ''H'' then lit 0.56 else None)"

definition specSubScore :: "string option \<Rightarrow> string option \<Rightarrow> string option \<Rightarrow> jsnum" where
  \<comment> \<open>\<open>1 - (1 - w\<^sub>1)(1 - w\<^sub>2)(1 - w\<^sub>3)\<close>: ISS, VulnImpact and SubImpact\<close>
  "specSubScore a b c =
     fsub (lit 1) (fmul (fmul (fsub (lit 1) (specWeightImpact a)) (fsub (lit 1) (specWeightImpact b)))
                        (fsub (lit 1) (specWeightImpact c)))"

definition specExploitabilityV3 :: "metrics \<Rightarrow> jsnum" where
  "specExploitabilityV3 m =
     fmul (fmul (fmul (fmul (lit 8.22) (specWeightAV (m ''AV''))) (specWeightAC (m ''AC'')))
                (specWeightPR3 (m ''PR'') (m ''S''))) (specWeightUI3 (m ''UI''))"

section \<open>Notions for the contract of the parser\<close>

text \<open>
  Names for the parts of \<open>parseVector\<close>, so that its contract can be stated: the test on
  the prefix, the version it selects, the keys then required, the segments the loop
  visits, the pair a segment contributes, and the object the loop leaves behind.
\<close>

definition recognised :: "string \<Rightarrow> bool" where
  "recognised s \<longleftrightarrow> startsWith s ''CVSS:3.0'' \<or> startsWith s ''CVSS:3.1'' \<or> startsWith s ''CVSS:4.0''"

definition versionOf :: "string \<Rightarrow> nat" where
  "versionOf s = (if startsWith s ''CVSS:3.0'' \<or> startsWith s ''CVSS:3.1'' then 3 else 4)"

definition required :: "nat \<Rightarrow> string list" where
  "required version = (if version = 3 then requiredV3 else requiredV4)"

definition segments :: "string \<Rightarrow> string list" where
  \<comment> \<open>the pieces of the trimmed input that the loop visits: all but the first\<close>
  "segments input = tl (js_split CHR ''/'' (js_trim input))"

definition keyValuePair :: "string \<Rightarrow> (string \<times> string) option" where
  \<comment> \<open>what one turn of the loop of \<open>parseVector\<close> stores for a segment, if anything\<close>
  "keyValuePair part =
     (case keyValue (js_split CHR '':'' part) of
        (Some key, Some v) \<Rightarrow> if key \<noteq> [] \<and> v \<noteq> [] then Some (key, v) else None
      | _ \<Rightarrow> None)"

definition extracted :: "string \<Rightarrow> metrics" where
  \<comment> \<open>the object \<open>newMetrics\<close> when the loop of \<open>parseVector\<close> has ended\<close>
  "extracted input = parseParts (segments input) Map.empty"

definition parsedState :: "string \<Rightarrow> cvss_state" where
  \<comment> \<open>the state that \<open>parseVector\<close> installs when no required metric is missing\<close>
  "parsedState input =
     \<lparr>currentVersion = versionOf (js_trim input), currentMetrics = extracted input\<rparr>"

section \<open>The specification's reading of a vector\<close>

definition specSegments :: "string \<Rightarrow> string list" where
  \<comment> \<open>the specification's reading: what follows the eight characters of the prefix, split
     at every \<open>/\<close>\<close>
  "specSegments input = js_split CHR ''/'' (drop 8 input)"

definition specSplitOnce :: "string \<Rightarrow> (string \<times> string) option" where
  \<comment> \<open>the specification's reading of a segment: split once, at the first colon, and kept
     if both sides are non-empty\<close>
  "specSplitOnce seg =
     (if CHR '':'' \<in> set seg
      then (let key = takeWhile (\<lambda>c. c \<noteq> CHR '':'') seg;
                v = tl (dropWhile (\<lambda>c. c \<noteq> CHR '':'') seg)
            in if key \<noteq> [] \<and> v \<noteq> [] then Some (key, v) else None)
      else None)"

definition impactRank :: "string option \<Rightarrow> nat" where
  \<comment> \<open>the order \<open>N < L < H\<close> of the specification\<close>
  "impactRank v = (if v = Some ''H'' then 2 else if v = Some ''L'' then 1 else 0)"

section \<open>Sample inputs\<close>

definition scenario1 :: metrics where
  "scenario1 = [''AV'' \<mapsto> ''N'', ''AC'' \<mapsto> ''L'', ''PR'' \<mapsto> ''N'', ''UI'' \<mapsto> ''N'', ''S'' \<mapsto> ''U'',
                ''C'' \<mapsto> ''H'', ''I'' \<mapsto> ''H'', ''A'' \<mapsto> ''H'']"

definition scenario3 :: metrics where
  "scenario3 = [''AV'' \<mapsto> ''L'', ''AC'' \<mapsto> ''H'', ''PR'' \<mapsto> ''H'', ''UI'' \<mapsto> ''R'', ''S'' \<mapsto> ''C'',
                ''C'' \<mapsto> ''L'', ''I'' \<mapsto> ''L'', ''A'' \<mapsto> ''L'']"

definition scenarioV4 :: metrics where
  "scenarioV4 = [''AV'' \<mapsto> ''A'', ''AC'' \<mapsto> ''H'', ''AT'' \<mapsto> ''P'', ''PR'' \<mapsto> ''L'', ''UI'' \<mapsto> ''P'',
                 ''VC'' \<mapsto> ''L'', ''VI'' \<mapsto> ''N'', ''VA'' \<mapsto> ''H'',
                 ''SC'' \<mapsto> ''H'', ''SI'' \<mapsto> ''L'', ''SA'' \<mapsto> ''L'']"

definition illegalAV :: metrics where
  "illegalAV = [''AV'' \<mapsto> ''X'', ''AC'' \<mapsto> ''L'', ''PR'' \<mapsto> ''N'', ''UI'' \<mapsto> ''N'', ''S'' \<mapsto> ''U'',
                ''C'' \<mapsto> ''H'', ''I'' \<mapsto> ''H'', ''A'' \<mapsto> ''H'']"

definition illegalPR :: metrics where
  "illegalPR = [''AV'' \<mapsto> ''N'', ''AC'' \<mapsto> ''L'', ''PR'' \<mapsto> ''X'', ''UI'' \<mapsto> ''N'', ''S'' \<mapsto> ''U'',
                ''C'' \<mapsto> ''H'', ''I'' \<mapsto> ''H'', ''A'' \<mapsto> ''H'']"

definition scopeChangedV4 :: metrics where
  "scopeChangedV4 = [''AV'' \<mapsto> ''N'', ''AC'' \<mapsto> ''L'', ''AT'' \<mapsto> ''N'', ''PR'' \<mapsto> ''N'', ''UI'' \<mapsto> ''N'',
                     ''VC'' \<mapsto> ''N'', ''VI'' \<mapsto> ''N'', ''VA'' \<mapsto> ''N'',
                     ''SC'' \<mapsto> ''H'', ''SI'' \<mapsto> ''N'', ''SA'' \<mapsto> ''N'']"

definition scopeChangedPassiveV4 :: metrics where
  "scopeChangedPassiveV4 = scopeChangedV4(''UI'' \<mapsto> ''P'')"

fun powBySteps :: "rat \<Rightarrow> nat \<Rightarrow> rat" where
  "powBySteps x 0 = 1"
| "powBySteps x (Suc n) = rnd (powBySteps x n * x)"

fun steppedPow :: "jsnum \<Rightarrow> jsnum \<Rightarrow> jsnum" where
  \<comment> \<open>one admissible \<open>Math.pow\<close> for natural exponents: repeated multiplication, each
     product rounded\<close>
  "steppedPow (Some x) (Some n) =
     (if 0 \<le> n \<and> of_int \<lfloor>n\<rfloor> = n then Some (powBySteps x (nat \<lfloor>n\<rfloor>)) else None)"
| "steppedPow _ _ = None"

definition sampleRuntime :: runtime where
  \<comment> \<open>one run-time system, for the examples; none of them reaches a member of
     \<open>Object.prototype\<close>\<close>
  "sampleRuntime = \<lparr>Math_pow = steppedPow, memberIndexed = (\<lambda>name key. Inr None),
                      memberGe = (\<lambda>name1 name2. False)\<rparr>"

section \<open>The rounding is to the nearest double\<close>

text \<open>
  \<open>rnd x\<close> is a multiple \<open>m * 2 ^ k\<close> with at most 53 bits in \<open>m\<close>, where \<open>k\<close> is fixed by the
  binade of \<open>x\<close> and is never below \<open>- 1074\<close>; it is within half a unit \<open>2 ^ k\<close> of \<open>x\<close>, and
  \<open>m\<close> is even when \<open>x\<close> lies half-way.
\<close>

lemma bitlength_bounds:
  "0 < n \<Longrightarrow> 1 \<le> bitlength n \<and> 2 ^ nat (bitlength n - 1) \<le> n \<and> n < 2 ^ nat (bitlength n)"
proof (induction n rule: bitlength.induct)
  case (1 n)
  show ?case
  proof (cases "n div 2 = 0")
    case True
    with "1.prems" have "n = 1" by presburger
    then show ?thesis
      by (simp add: bitlength.simps[of 1] bitlength.simps[of 0])
  next
    case False
    with "1.prems" have pos: "0 < n div 2" by presburger
    with "1.IH" "1.prems" have ih: "1 \<le> bitlength (n div 2)"
        "2 ^ nat (bitlength (n div 2) - 1) \<le> n div 2" "n div 2 < 2 ^ nat (bitlength (n div 2))"
      by auto
    have b: "bitlength n = 1 + bitlength (n div 2)"
      using "1.prems" by (subst bitlength.simps) simp
    have e1: "nat (bitlength n - 1) = Suc (nat (bitlength (n div 2) - 1))"
      using ih(1) b by simp
    have e2: "nat (bitlength n) = Suc (nat (bitlength (n div 2)))"
      using ih(1) b by simp
    show ?thesis
      unfolding e1 e2 using ih b by (simp, presburger)
  qed
qed

lemma round_half_even_nearest:
  assumes "0 < d"
  shows "2 * \<bar>n - round_half_even n d * d\<bar> \<le> d
       \<and> (2 * \<bar>n - round_half_even n d * d\<bar> = d \<longrightarrow> even (round_half_even n d))"
proof -
  define f where "f = n div d"
  define r where "r = n mod d"
  have n: "n = f * d + r" by (simp add: f_def r_def)
  have r: "0 \<le> r" "r < d" using assms by (simp_all add: r_def)
  have 1: "n - f * d = r" using n by simp
  have 2: "n - (f + 1) * d = r - d" using n by (simp add: algebra_simps)
  show ?thesis
    unfolding round_half_even_def Let_def f_def[symmetric] r_def[symmetric]
    using r by (auto simp add: 1 2)
qed


lemma powi_nat: "0 \<le> e \<Longrightarrow> (2::rat) powi e = 2 ^ nat e"
  by (simp add: power_int_def)

lemma powi_neg: "e < 0 \<Longrightarrow> (2::rat) powi e = 1 / 2 ^ nat (- e)"
  by (simp add: power_int_def field_simps)

lemma ilog2_test:
  assumes "0 < q"
  shows "(if 0 \<le> d then 2 ^ nat d * q \<le> p else q \<le> p * 2 ^ nat (- d))
       \<longleftrightarrow> (2::rat) powi d \<le> of_int p / of_int q"
proof (cases "0 \<le> d")
  case True
  have "(2 ^ nat d * q \<le> p) \<longleftrightarrow> ((of_int (2 ^ nat d * q) :: rat) \<le> of_int p)"
    by (simp only: of_int_le_iff)
  also have "\<dots> \<longleftrightarrow> ((2::rat) ^ nat d \<le> of_int p / of_int q)"
    using assms by (simp add: pos_le_divide_eq)
  finally show ?thesis using True by (simp add: powi_nat)
next
  case False
  have "(q \<le> p * 2 ^ nat (- d)) \<longleftrightarrow> ((of_int q :: rat) \<le> of_int (p * 2 ^ nat (- d)))"
    by (simp only: of_int_le_iff)
  also have "\<dots> \<longleftrightarrow> (1 / (2::rat) ^ nat (- d) \<le> of_int p / of_int q)"
    using assms by (simp add: field_simps)
  finally show ?thesis using False by (simp add: powi_neg)
qed

lemma ilog2_bounds:
  assumes "0 < p" "0 < q"
  shows "(2::rat) powi (ilog2 p q) \<le> of_int p / of_int q
       \<and> of_int p / of_int q < (2::rat) powi (ilog2 p q + 1)"
proof -
  define a where "a = bitlength p"
  define b where "b = bitlength q"
  define x :: rat where "x = of_int p / of_int q"
  from bitlength_bounds[OF assms(1)] have a: "1 \<le> a" "2 ^ nat (a - 1) \<le> p" "p < 2 ^ nat a"
    by (simp_all add: a_def)
  from bitlength_bounds[OF assms(2)] have b: "1 \<le> b" "2 ^ nat (b - 1) \<le> q" "q < 2 ^ nat b"
    by (simp_all add: b_def)
  have pa: "(2::rat) powi (a - 1) \<le> of_int p" "(of_int p :: rat) < 2 powi a"
  proof -
    have "(of_int (2 ^ nat (a - 1)) :: rat) \<le> of_int p"
      using a(2) by (simp only: of_int_le_iff)
    then show "(2::rat) powi (a - 1) \<le> of_int p"
      using a(1) by (simp add: powi_nat)
    have "(of_int p :: rat) < of_int (2 ^ nat a)"
      using a(3) by (simp only: of_int_less_iff)
    then show "(of_int p :: rat) < 2 powi a"
      using a(1) by (simp add: powi_nat)
  qed
  have qb: "(2::rat) powi (b - 1) \<le> of_int q" "(of_int q :: rat) < 2 powi b"
  proof -
    have "(of_int (2 ^ nat (b - 1)) :: rat) \<le> of_int q"
      using b(2) by (simp only: of_int_le_iff)
    then show "(2::rat) powi (b - 1) \<le> of_int q"
      using b(1) by (simp add: powi_nat)
    have "(of_int q :: rat) < of_int (2 ^ nat b)"
      using b(3) by (simp only: of_int_less_iff)
    then show "(of_int q :: rat) < 2 powi b"
      using b(1) by (simp add: powi_nat)
  qed
  have qpos: "(0::rat) < of_int q" and ppos: "(0::rat) < of_int p"
    using assms by simp_all
  have up: "x < 2 powi (a - b + 1)"
  proof -
    have "x < 2 powi a / 2 powi (b - 1)"
      unfolding x_def using pa(2) qb(1) ppos qpos
      by (intro frac_less) simp_all
    also have "\<dots> = 2 powi (a - (b - 1))"
      by (simp add: power_int_diff)
    finally show ?thesis by (simp add: algebra_simps)
  qed
  have lo: "2 powi (a - b - 1) \<le> x"
  proof -
    have "(2::rat) powi (a - 1) / 2 powi b \<le> x"
      unfolding x_def using pa(1) qb(2) ppos qpos
      by (intro frac_le) simp_all
    moreover have "(2::rat) powi (a - 1) / 2 powi b = 2 powi (a - 1 - b)"
      by (simp add: power_int_diff)
    ultimately show ?thesis by (simp add: algebra_simps)
  qed
  have t: "ilog2 p q = (if (2::rat) powi (a - b) \<le> x then a - b else a - b - 1)"
    unfolding ilog2_def Let_def a_def[symmetric] b_def[symmetric] x_def
    using ilog2_test[OF assms(2), of "a - b" p] by simp
  show ?thesis
    unfolding x_def[symmetric] t using up lo by (auto simp add: not_le)
qed


lemma scaled_nearest:
  fixes x u :: rat
  assumes "0 < D" "0 < u" "x = of_int N / of_int D * u"
  shows "2 * \<bar>x - of_int (round_half_even N D) * u\<bar> \<le> u
       \<and> (2 * \<bar>x - of_int (round_half_even N D) * u\<bar> = u \<longrightarrow> even (round_half_even N D))"
proof -
  define m where "m = round_half_even N D"
  define a where "a = 2 * \<bar>N - m * D\<bar>"
  have Dpos: "(0::rat) < of_int D" using assms(1) by simp
  have "x - of_int m * u = u * (of_int (N - m * D) / of_int D)"
    using Dpos by (simp add: assms(3) field_simps)
  then have "\<bar>x - of_int m * u\<bar> = u * (of_int \<bar>N - m * D\<bar> / of_int D)"
    using assms(2) Dpos by (simp add: abs_mult)
  then have e: "2 * \<bar>x - of_int m * u\<bar> = u * (of_int a / of_int D)"
    by (simp add: a_def)
  define y :: rat where "y = of_int a / of_int D"
  note e = e[folded y_def]
  have le: "u * y \<le> u \<longleftrightarrow> a \<le> D"
  proof -
    have "u * y \<le> u \<longleftrightarrow> y \<le> 1"
      using mult_le_cancel_left_pos[OF assms(2), of y 1] by simp
    also have "\<dots> \<longleftrightarrow> (of_int a :: rat) \<le> of_int D"
      unfolding y_def using Dpos by (simp add: pos_divide_le_eq)
    finally show ?thesis by simp
  qed
  have eq: "u * y = u \<longleftrightarrow> a = D"
  proof -
    have "u * y = u \<longleftrightarrow> y = 1"
      using assms(2) by simp
    also have "\<dots> \<longleftrightarrow> (of_int a :: rat) = of_int D"
      unfolding y_def using Dpos by (simp add: divide_eq_eq)
    finally show ?thesis by simp
  qed
  from round_half_even_nearest[OF assms(1), of N]
  have "a \<le> D \<and> (a = D \<longrightarrow> even m)"
    by (simp add: a_def m_def)
  then show ?thesis
    unfolding m_def[symmetric] e le eq .
qed

lemma rnd_frac_scaled:
  assumes "0 < q" "p \<noteq> 0" "k = max (ilog2 \<bar>p\<bar> q) (- 1022) - 52"
  shows "\<exists>N D. 0 < D \<and> of_int p / of_int q = (of_int N / of_int D :: rat) * 2 powi k
            \<and> rnd_frac p q = of_int (round_half_even N D) * 2 powi k"
proof -
  have r: "rnd_frac p q =
      (if 0 \<le> k then of_int (round_half_even p (q * 2 ^ nat k) * 2 ^ nat k)
       else Fract (round_half_even (p * 2 ^ nat (- k)) q) (2 ^ nat (- k)))"
    unfolding rnd_frac_def Let_def assms(3) using assms(2) by simp
  show ?thesis
  proof (cases "0 \<le> k")
    case True
    have "of_int p / of_int q = (of_int p / of_int (q * 2 ^ nat k) :: rat) * 2 powi k"
      using True by (simp add: powi_nat)
    moreover have "rnd_frac p q = of_int (round_half_even p (q * 2 ^ nat k)) * 2 powi k"
      using True by (simp add: r powi_nat)
    moreover have "0 < q * 2 ^ nat k"
      using assms(1) by simp
    ultimately show ?thesis by blast
  next
    case False
    then have neg: "k < 0" by simp
    have "of_int p / of_int q = (of_int (p * 2 ^ nat (- k)) / of_int q :: rat) * 2 powi k"
      using neg by (simp add: powi_neg)
    moreover have "rnd_frac p q = of_int (round_half_even (p * 2 ^ nat (- k)) q) * 2 powi k"
      using neg by (simp add: r powi_neg Fract_of_int_quotient)
    ultimately show ?thesis using assms(1) by blast
  qed
qed

lemma rnd_frac_nearest:
  assumes "0 < q" "p \<noteq> 0" "k = max (ilog2 \<bar>p\<bar> q) (- 1022) - 52"
  shows "\<exists>m. rnd_frac p q = of_int m * 2 powi k
            \<and> 2 * \<bar>of_int p / of_int q - rnd_frac p q\<bar> \<le> 2 powi k
            \<and> (2 * \<bar>of_int p / of_int q - rnd_frac p q\<bar> = 2 powi k \<longrightarrow> even m)"
proof -
  from rnd_frac_scaled[OF assms] obtain N D where s: "0 < D"
      "of_int p / of_int q = (of_int N / of_int D :: rat) * 2 powi k"
      "rnd_frac p q = of_int (round_half_even N D) * 2 powi k"
    by blast
  have u: "(0::rat) < 2 powi k" by simp
  from scaled_nearest[OF s(1) u s(2)] s(3) show ?thesis
    by (intro exI[of _ "round_half_even N D"]) simp
qed


lemma rnd_frac_significand:
  assumes "0 < q" "p \<noteq> 0" "k = max (ilog2 \<bar>p\<bar> q) (- 1022) - 52"
    and "rnd_frac p q = of_int m * 2 powi k"
    and "2 * \<bar>of_int p / of_int q - rnd_frac p q\<bar> \<le> 2 powi k"
  shows "\<bar>m\<bar> \<le> 2 ^ 53"
proof -
  define x :: rat where "x = of_int p / of_int q"
  define u :: rat where "u = 2 powi k"
  have u: "0 < u" by (simp add: u_def)
  have "of_int \<bar>p\<bar> / of_int q < (2::rat) powi (ilog2 \<bar>p\<bar> q + 1)"
    using ilog2_bounds[of "\<bar>p\<bar>" q] assms(1,2) by simp
  also have "\<dots> \<le> 2 powi (k + 53)"
    by (intro power_int_increasing) (simp_all add: assms(3))
  also have "\<dots> = u * 2 ^ 53"
    by (simp add: u_def power_int_add)
  finally have x: "\<bar>x\<bar> < u * 2 ^ 53"
    using assms(1) by (simp add: x_def abs_divide)
  have "\<bar>of_int m * u\<bar> \<le> \<bar>x\<bar> + \<bar>x - of_int m * u\<bar>"
    by simp
  also have "\<dots> < u * 2 ^ 53 + u / 2"
    using x assms(5) by (simp add: x_def u_def assms(4))
  finally have "\<bar>of_int m\<bar> * u < u * (2 ^ 53 + 1 / 2)"
    using u by (simp add: abs_mult algebra_simps)
  then have "\<bar>of_int m :: rat\<bar> < 2 ^ 53 + 1 / 2"
    using u by (simp add: mult.commute)
  then have "(of_int (2 * \<bar>m\<bar>) :: rat) < of_int (2 ^ 54 + 1)"
    by simp
  then have "2 * \<bar>m\<bar> < 2 ^ 54 + 1"
    by (simp only: of_int_less_iff)
  then show ?thesis by simp
qed


lemma rnd_nearest:
  assumes "x \<noteq> 0"
  shows "\<exists>m k. rnd x = of_int m * 2 powi k \<and> \<bar>m\<bar> \<le> 2 ^ 53
            \<and> (k = - 1074 \<or> - 1074 < k \<and> 2 powi (k + 52) \<le> \<bar>x\<bar>)
            \<and> \<bar>x\<bar> < 2 powi (k + 53)
            \<and> 2 * \<bar>x - rnd x\<bar> \<le> 2 powi k
            \<and> (2 * \<bar>x - rnd x\<bar> = 2 powi k \<longrightarrow> even m)"
proof -
  obtain p q where pq: "quotient_of x = (p, q)" by (cases "quotient_of x")
  then have q: "0 < q" and x: "x = of_int p / of_int q"
    by (simp_all add: quotient_of_denom_pos quotient_of_div)
  from assms x have p: "p \<noteq> 0" by auto
  have r: "rnd x = rnd_frac p q" by (simp add: rnd_def pq)
  define e where "e = ilog2 \<bar>p\<bar> q"
  define k where "k = max e (- 1022) - 52"
  have k: "k = max (ilog2 \<bar>p\<bar> q) (- 1022) - 52" by (simp add: k_def e_def)
  from rnd_frac_nearest[OF q p k] obtain m where m: "rnd_frac p q = of_int m * 2 powi k"
      "2 * \<bar>of_int p / of_int q - rnd_frac p q\<bar> \<le> 2 powi k"
      "2 * \<bar>of_int p / of_int q - rnd_frac p q\<bar> = 2 powi k \<longrightarrow> even m"
    by blast
  have s: "\<bar>m\<bar> \<le> 2 ^ 53"
    using rnd_frac_significand[OF q p k m(1) m(2)] .
  have ax: "\<bar>x\<bar> = of_int \<bar>p\<bar> / of_int q"
    using q by (simp add: x abs_divide)
  from ilog2_bounds[of "\<bar>p\<bar>" q] p q
  have b: "2 powi e \<le> \<bar>x\<bar>" "\<bar>x\<bar> < 2 powi (e + 1)"
    by (simp_all add: ax e_def)
  have "(2::rat) powi (e + 1) \<le> 2 powi (k + 53)"
    by (intro power_int_increasing) (simp_all add: k_def)
  with b(2) have up: "\<bar>x\<bar> < 2 powi (k + 53)" by simp
  have lo: "k = - 1074 \<or> - 1074 < k \<and> 2 powi (k + 52) \<le> \<bar>x\<bar>"
  proof (cases "e \<le> - 1022")
    case True
    then show ?thesis by (simp add: k_def)
  next
    case False
    then have "k + 52 = e" "- 1074 < k" by (simp_all add: k_def)
    with b(1) show ?thesis by simp
  qed
  show ?thesis
    using m s up lo unfolding r x[symmetric] by blast
qed

section \<open>Evaluation of the number model\<close>

lemma rnd_tenth: "rnd (1 / 10) = 3602879701896397 / 36028797018963968"
  by code_simp

lemma rnd_third: "rnd (1 / 3) = 6004799503160661 / 18014398509481984"
  by code_simp

lemma rnd_ties_to_even:
  "rnd 9007199254740993 = 9007199254740992" "rnd 9007199254740995 = 9007199254740996"
  by code_simp+

lemma rnd_small_integers: "rnd 0 = 0" "rnd 1 = 1" "rnd 10 = 10" "rnd (- 3) = - 3"
  by code_simp+

lemma rnd_order: "rnd 0 = 0" "rnd 1 = 1" "rnd 2 = 2"
  by code_simp+

lemma lit_9_8: "lit 9.8 = Some (2758454771764429 / 281474976710656)"
  by code_simp

section \<open>The weight tables of the code are those of the specification\<close>

lemmas idx_eval = idx_def getProp_def str_def objectPrototypeNames_def

lemma idx_CVSS3_AV: "idx CVSS3_WEIGHTS_AV v = specWeightAV v"
  by (cases v) (simp_all add: idx_eval CVSS3_WEIGHTS_AV_def specWeightAV_def lit_def)

lemma idx_CVSS3_AC: "idx CVSS3_WEIGHTS_AC v = specWeightAC v"
  by (cases v) (simp_all add: idx_eval CVSS3_WEIGHTS_AC_def specWeightAC_def lit_def)

lemma idx_CVSS3_UI: "idx CVSS3_WEIGHTS_UI v = specWeightUI3 v"
  by (cases v) (simp_all add: idx_eval CVSS3_WEIGHTS_UI_def specWeightUI3_def lit_def)

lemma idx_CVSS3_C: "idx CVSS3_WEIGHTS_C v = specWeightImpact v"
  by (cases v) (simp_all add: idx_eval CVSS3_WEIGHTS_C_def specWeightImpact_def lit_def)

lemma idx_CVSS3_I: "idx CVSS3_WEIGHTS_I v = specWeightImpact v"
  by (cases v) (simp_all add: idx_eval CVSS3_WEIGHTS_I_def specWeightImpact_def lit_def)

lemma idx_CVSS3_A: "idx CVSS3_WEIGHTS_A v = specWeightImpact v"
  by (cases v) (simp_all add: idx_eval CVSS3_WEIGHTS_A_def specWeightImpact_def lit_def)

lemma idx_CVSS3_PR:
  assumes "v \<in> {Some ''N'', Some ''L'', Some ''H''}"
  shows "\<exists>t. getProp CVSS3_WEIGHTS_PR v = Own t \<and> idx t s = specWeightPR3 v s"
  using assms by (cases s) (auto simp add: idx_eval CVSS3_WEIGHTS_PR_def specWeightPR3_def lit_def)

lemma idx_impactWeight: "idx impactWeight v = specWeightImpact v"
  by (cases v) (simp_all add: idx_eval impactWeight_def specWeightImpact_def lit_def)

lemma idx_v4_AV:
  "idx (map_of [(''N'', rnd 0.85), (''A'', rnd 0.62), (''L'', rnd 0.55), (''P'', rnd 0.2)]) v = specWeightAV v"
  by (cases v) (simp_all add: idx_eval specWeightAV_def lit_def)

lemma idx_v4_AC: "idx (map_of [(''L'', rnd 0.77), (''H'', rnd 0.44)]) v = specWeightAC v"
  by (cases v) (simp_all add: idx_eval specWeightAC_def lit_def)

lemma idx_v4_AT: "idx (map_of [(''N'', rnd 1.0), (''P'', rnd 0.8)]) v = specWeightAT v"
  by (cases v) (simp_all add: idx_eval specWeightAT_def lit_def)

lemma idx_v4_PR:
  "idx (map_of [(''N'', rnd 0.85), (''L'', rnd 0.62), (''H'', rnd 0.27)]) v = specWeightPR4 v"
  by (cases v) (simp_all add: idx_eval specWeightPR4_def lit_def)

lemma idx_v4_UI:
  "idx (map_of [(''N'', rnd 0.85), (''P'', rnd 0.70), (''A'', rnd 0.62)]) v = specWeightUI4 v"
  by (cases v) (simp_all add: idx_eval specWeightUI4_def lit_def)

lemma legalV3_scenario1: "legalV3 scenario1"
  by (auto simp add: legalV3_def scenario1_def requiredV3_def)

lemma legalV3_scenario3: "legalV3 scenario3"
  by (auto simp add: legalV3_def scenario3_def requiredV3_def)

lemma legalV4_scenarioV4: "legalV4 scenarioV4"
  by (auto simp add: legalV4_def scenarioV4_def requiredV4_def)

section \<open>When showing the score throws\<close>

text \<open>
  \<open>updateUI\<close> throws only for a version 3 state whose PR value names nothing that the
  table of PR weights has or inherits, or an inherited member whose indexing throws.
\<close>

lemma updateUI_v4: "currentVersion st \<noteq> 3 \<Longrightarrow> updateUI rt st = None"
  by (simp add: updateUI_def calculateScore_def)

lemma calculateCVSSv3Score_Own:
  assumes "getProp CVSS3_WEIGHTS_PR (m ''PR'') = Own t"
  shows "\<exists>score. calculateCVSSv3Score rt m = Inr score"
  by (simp only: calculateCVSSv3Score_def assms property.case sum.case Let_def) blast

lemma updateUI_PR:
  assumes "currentMetrics st ''PR'' \<in> {Some ''N'', Some ''L'', Some ''H''}"
  shows "updateUI rt st = None"
proof -
  obtain t where t: "getProp CVSS3_WEIGHTS_PR (currentMetrics st ''PR'') = Own t"
    using idx_CVSS3_PR[OF assms] by blast
  obtain score where "calculateCVSSv3Score rt (currentMetrics st) = Inr score"
    using calculateCVSSv3Score_Own[of "currentMetrics st" t rt] t by blast
  then show ?thesis
    by (simp add: updateUI_def calculateScore_def)
qed

lemma updateUI_Missing:
  assumes "currentVersion st = 3" "getProp CVSS3_WEIGHTS_PR (currentMetrics st ''PR'') = Missing"
  shows "updateUI rt st = Some TypeError"
  using assms by (simp add: updateUI_def calculateScore_def calculateCVSSv3Score_def)

lemma updateUI_legal:
  assumes "legalState st"
  shows "updateUI rt st = None"
proof -
  from assms have "currentMetrics st ''PR'' \<in> {Some ''N'', Some ''L'', Some ''H''}"
    unfolding legalState_def legalV3_def legalV4_def by blast
  then show ?thesis
    by (rule updateUI_PR)
qed

lemma state_update:
  "st\<lparr>currentMetrics := m\<rparr> = \<lparr>currentVersion = currentVersion st, currentMetrics = m\<rparr>"
  by (cases st) simp

lemma switchVersion_eq:
  "switchVersion rt version st =
     (None, \<lparr>currentVersion = version,
              currentMetrics = (if version = 3 then defaultV3 else defaultV4)\<rparr>)"
proof -
  have "updateUI rt \<lparr>currentVersion = version,
          currentMetrics = (if version = 3 then defaultV3 else defaultV4)\<rparr> = None"
    by (rule updateUI_PR) (simp add: defaultV3_def defaultV4_def)
  then show ?thesis
    by (simp add: switchVersion_def Let_def)
qed

section \<open>Scores\<close>

text \<open>
  Claim C1.  The vector \<open>CVSS:3.1/AV:N/AC:L/PR:N/UI:N/S:U/C:H/I:H/A:H\<close> parses, from any
  state and without an alert or an exception, to the metric set \<open>scenario1\<close>; the v3
  score of that set is the double 9.8, with any \<open>Math.pow\<close>; and the severity of 9.8 is
  Critical.
\<close>

theorem scenario1_score:
  "parseVector rt ''CVSS:3.1/AV:N/AC:L/PR:N/UI:N/S:U/C:H/I:H/A:H'' st
     = (Done, \<lparr>currentVersion = 3, currentMetrics = scenario1\<rparr>)
   \<and> calculateCVSSv3Score rt scenario1 = Inr (lit 9.8)
   \<and> getSeverity (lit 9.8) = ''Critical''"
proof (intro conjI)
  have u: "updateUI rt \<lparr>currentVersion = 3, currentMetrics = scenario1\<rparr> = None"
    by (rule updateUI_PR) (simp_all add: scenario1_def)
  show "parseVector rt ''CVSS:3.1/AV:N/AC:L/PR:N/UI:N/S:U/C:H/I:H/A:H'' st
     = (Done, \<lparr>currentVersion = 3, currentMetrics = scenario1\<rparr>)"
    by (simp add: parseVector_def js_trim_def isWhiteSpace_def startsWith_def setProp_def
        requiredV3_def scenario1_def switchVersion_eq state_update u[unfolded scenario1_def] Let_def)
  show "calculateCVSSv3Score rt scenario1 = Inr (lit 9.8)"
    by code_simp
  show "getSeverity (lit 9.8) = ''Critical''"
    by code_simp
qed

text \<open>
  Claim C2.  For every legal V3 metric set the v3 score is the base score rounded up to
  one decimal (multiplied by 10, ceiling, divided by 10), where Impact is 6.42 ISS for
  Scope U and 7.52 (ISS - 0.029) - 3.25 (ISS - 0.02)^15 for Scope C, and the base score
  is 0 if Impact is at most 0, else min (Impact + Exploitability, 10) for Scope U and
  min (1.08 (Impact + Exploitability), 10) for Scope C.  ISS and Exploitability are
  those of the specification's tables.
\<close>

theorem scoreV3_formula:
  assumes "legalV3 m"
  shows "calculateCVSSv3Score rt m = Inr
    (let ISS = specSubScore (m ''C'') (m ''I'') (m ''A'');
         Exploitability = specExploitabilityV3 m;
         Impact = (if m ''S'' = Some ''U'' then fmul (lit 6.42) ISS
                   else fsub (fmul (lit 7.52) (fsub ISS (lit 0.029)))
                             (fmul (lit 3.25) (Math_pow rt (fsub ISS (lit 0.02)) (lit 15))));
         BaseScore = (if fle Impact (lit 0) then lit 0
                      else if m ''S'' = Some ''U'' then Math_min (fadd Impact Exploitability) (lit 10)
                      else Math_min (fmul (lit 1.08) (fadd Impact Exploitability)) (lit 10))
     in fdiv (Math_ceil (fmul BaseScore (lit 10))) (lit 10))"
proof -
  from assms have "m ''PR'' \<in> {Some ''N'', Some ''L'', Some ''H''}"
    by (simp add: legalV3_def)
  then obtain t where t: "getProp CVSS3_WEIGHTS_PR (m ''PR'') = Own t"
      "idx t (m ''S'') = specWeightPR3 (m ''PR'') (m ''S'')"
    using idx_CVSS3_PR by blast
  show ?thesis
    unfolding calculateCVSSv3Score_def specExploitabilityV3_def specSubScore_def roundUp_def
    by (simp add: t idx_CVSS3_AV idx_CVSS3_AC idx_CVSS3_UI idx_CVSS3_C idx_CVSS3_I idx_CVSS3_A Let_def)
qed

theorem scoreV3_formula_witness:
  "legalV3 scenario3 \<and> calculateCVSSv3Score sampleRuntime scenario3 = Inr (lit 4.7)"
proof -
  have e: "calculateCVSSv3Score sampleRuntime scenario3 = Inr (lit 4.7)"
    by code_simp
  show ?thesis
    using scoreV3_formula [OF legalV3_scenario3, of sampleRuntime] legalV3_scenario3 e by simp
qed

text \<open>
  Claim C3.  For every legal V4 metric set the v4 score is min (Impact + Exploitability, 10)
  rounded up to one decimal (multiplied by 10, ceiling, divided by 10), where Exploitability is 8.22 times the AV, AC, AT, PR and UI weights of the
  specification's tables, and Impact is 6.42 times the larger of VulnImpact (from VC, VI,
  VA) and SubImpact (from SC, SI, SA).
\<close>

theorem scoreV4_formula:
  assumes "legalV4 m"
  shows "calculateCVSSv4Score m =
    (let Exploitability = fmul (fmul (fmul (fmul (fmul (lit 8.22) (specWeightAV (m ''AV'')))
                            (specWeightAC (m ''AC''))) (specWeightAT (m ''AT'')))
                            (specWeightPR4 (m ''PR''))) (specWeightUI4 (m ''UI''));
         VulnImpact = specSubScore (m ''VC'') (m ''VI'') (m ''VA'');
         SubImpact = specSubScore (m ''SC'') (m ''SI'') (m ''SA'');
         Impact = fmul (lit 6.42) (Math_max VulnImpact SubImpact)
     in fdiv (Math_ceil (fmul (Math_min (fadd Impact Exploitability) (lit 10)) (lit 10))) (lit 10))"
  unfolding calculateCVSSv4Score_def specSubScore_def roundUp_def Let_def
  by (simp only: idx_v4_AV idx_v4_AC idx_v4_AT idx_v4_PR idx_v4_UI idx_impactWeight)

theorem scoreV4_formula_witness:
  "legalV4 scenarioV4 \<and> calculateCVSSv4Score scenarioV4 = lit 5.5"
proof -
  have e: "calculateCVSSv4Score scenarioV4 = lit 5.5"
    by code_simp
  show ?thesis
    using scoreV4_formula [OF legalV4_scenarioV4] legalV4_scenarioV4 e by simp
qed

section \<open>Strings, segments and the parser\<close>

lemma js_split_not_Nil: "js_split sep s \<noteq> []"
  by (induction s) (auto split: list.splits)

lemma js_split_no_sep: "sep \<notin> set s \<Longrightarrow> js_split sep s = [s]"
  by (induction s) auto

lemma js_split_append: "sep \<notin> set a \<Longrightarrow> js_split sep (a @ sep # rest) = a # js_split sep rest"
  by (induction a) auto

lemma js_split_takeWhile:
  "js_split sep s = takeWhile (\<lambda>c. c \<noteq> sep) s #
     (if sep \<in> set s then js_split sep (tl (dropWhile (\<lambda>c. c \<noteq> sep) s)) else [])"
  by (induction s) (auto split: list.splits simp: js_split_not_Nil)

lemma parseParts_Cons:
  "parseParts (part # rest) nm =
     parseParts rest (case keyValuePair part of None \<Rightarrow> nm | Some (k, v) \<Rightarrow> setProp nm k v)"
  by (simp add: keyValuePair_def split: prod.splits option.splits)

lemma keyValuePair_takeWhile:
  "keyValuePair seg =
     (let key = takeWhile (\<lambda>c. c \<noteq> CHR '':'') seg;
          v = takeWhile (\<lambda>c. c \<noteq> CHR '':'') (tl (dropWhile (\<lambda>c. c \<noteq> CHR '':'') seg))
      in if key \<noteq> [] \<and> v \<noteq> [] then Some (key, v) else None)"
proof (cases "CHR '':'' \<in> set seg")
  case False
  then have d: "dropWhile (\<lambda>c. c \<noteq> CHR '':'') seg = []"
    by (auto simp add: dropWhile_eq_Nil_conv)
  show ?thesis
    unfolding Let_def d using False by (simp add: keyValuePair_def js_split_no_sep)
next
  case True
  then show ?thesis
    unfolding keyValuePair_def
    by (subst js_split_takeWhile, simp, subst js_split_takeWhile) (simp add: Let_def)
qed

lemma parseParts_append: "parseParts (xs @ ys) nm = parseParts ys (parseParts xs nm)"
  by (induction xs arbitrary: nm) (simp_all add: parseParts_Cons del: parseParts.simps(2))

lemma parseParts_map_of:
  "k \<noteq> ''__proto__'' \<Longrightarrow>
   parseParts segs nm k =
     (case map_of (rev (List.map_filter keyValuePair segs)) k of None \<Rightarrow> nm k | Some v \<Rightarrow> Some v)"
proof (induction segs arbitrary: nm)
  case Nil
  then show ?case by simp
next
  case (Cons seg segs)
  show ?case
  proof (cases "keyValuePair seg")
    case None
    then show ?thesis
      using Cons by (simp add: parseParts_Cons del: parseParts.simps(2))
  next
    case (Some kv)
    obtain k' v' where kv: "kv = (k', v')" by (cases kv)
    show ?thesis
      using Cons Some kv
      by (auto simp add: parseParts_Cons setProp_def map_add_def
          simp del: parseParts.simps(2) split: option.splits)
  qed
qed

lemma parseParts_proto: "parseParts segs nm ''__proto__'' = nm ''__proto__''"
  by (induction segs arbitrary: nm)
     (auto simp add: parseParts_Cons setProp_def simp del: parseParts.simps(2) split: option.splits)

lemma keyValuePair_nonempty: "keyValuePair seg = Some (k, v) \<Longrightarrow> k \<noteq> [] \<and> v \<noteq> []"
  by (auto simp add: keyValuePair_def split: prod.splits option.splits if_splits)

lemma parseParts_truthy:
  assumes "\<And>k v. nm k = Some v \<Longrightarrow> v \<noteq> []"
  shows "truthy (parseParts segs nm k) \<longleftrightarrow> parseParts segs nm k \<noteq> None"
  using assms
proof (induction segs arbitrary: nm)
  case Nil
  then show ?case by (cases "nm k") auto
next
  case (Cons seg segs)
  show ?case
  proof (cases "keyValuePair seg")
    case None
    then show ?thesis
      using Cons by (simp add: parseParts_Cons del: parseParts.simps(2))
  next
    case (Some kv)
    obtain k' v' where kv: "kv = (k', v')" by (cases kv)
    have "\<And>k v. setProp nm k' v' k = Some v \<Longrightarrow> v \<noteq> []"
      using Cons.prems keyValuePair_nonempty[of seg k' v'] Some kv
      by (auto simp add: setProp_def split: if_splits)
    then show ?thesis
      using Cons.IH[of "setProp nm k' v'"] Some kv
      by (simp add: parseParts_Cons del: parseParts.simps(2))
  qed
qed

lemma extracted_truthy: "truthy (extracted input k) \<longleftrightarrow> extracted input k \<noteq> None"
  unfolding extracted_def by (rule parseParts_truthy) simp

lemma firstMissing_Some:
  "firstMissing ks m = Some k \<longleftrightarrow>
     (\<exists>ys zs. ks = ys @ k # zs \<and> (\<forall>y\<in>set ys. truthy (m y)) \<and> \<not> truthy (m k))"
proof (induction ks)
  case Nil
  then show ?case by simp
next
  case (Cons a ks)
  show ?case
  proof (cases "truthy (m a)")
    case False
    have "(\<exists>ys zs. a # ks = ys @ k # zs \<and> (\<forall>y\<in>set ys. truthy (m y)) \<and> \<not> truthy (m k)) \<longleftrightarrow> a = k"
    proof
      assume "\<exists>ys zs. a # ks = ys @ k # zs \<and> (\<forall>y\<in>set ys. truthy (m y)) \<and> \<not> truthy (m k)"
      then obtain ys zs where h: "a # ks = ys @ k # zs" "\<forall>y\<in>set ys. truthy (m y)" by blast
      show "a = k"
      proof (cases ys)
        case Nil
        with h show ?thesis by simp
      next
        case (Cons y ys')
        with h False show ?thesis by auto
      qed
    next
      assume "a = k"
      with False show "\<exists>ys zs. a # ks = ys @ k # zs \<and> (\<forall>y\<in>set ys. truthy (m y)) \<and> \<not> truthy (m k)"
        by (intro exI[of _ "[]"] exI[of _ ks]) simp
    qed
    with False show ?thesis by auto
  next
    case True
    have "(\<exists>ys zs. a # ks = ys @ k # zs \<and> (\<forall>y\<in>set ys. truthy (m y)) \<and> \<not> truthy (m k))
       \<longleftrightarrow> (\<exists>ys zs. ks = ys @ k # zs \<and> (\<forall>y\<in>set ys. truthy (m y)) \<and> \<not> truthy (m k))"
    proof
      assume "\<exists>ys zs. a # ks = ys @ k # zs \<and> (\<forall>y\<in>set ys. truthy (m y)) \<and> \<not> truthy (m k)"
      then obtain ys zs where h: "a # ks = ys @ k # zs" "\<forall>y\<in>set ys. truthy (m y)" "\<not> truthy (m k)"
        by blast
      show "\<exists>ys zs. ks = ys @ k # zs \<and> (\<forall>y\<in>set ys. truthy (m y)) \<and> \<not> truthy (m k)"
      proof (cases ys)
        case Nil
        with h True show ?thesis by simp
      next
        case (Cons y ys')
        with h show ?thesis by (intro exI[of _ ys'] exI[of _ zs]) simp
      qed
    next
      assume "\<exists>ys zs. ks = ys @ k # zs \<and> (\<forall>y\<in>set ys. truthy (m y)) \<and> \<not> truthy (m k)"
      then obtain ys zs where h: "ks = ys @ k # zs" "\<forall>y\<in>set ys. truthy (m y)" "\<not> truthy (m k)"
        by blast
      with True show "\<exists>ys zs. a # ks = ys @ k # zs \<and> (\<forall>y\<in>set ys. truthy (m y)) \<and> \<not> truthy (m k)"
        by (intro exI[of _ "a # ys"] exI[of _ zs]) simp
    qed
    with True Cons show ?thesis by simp
  qed
qed

lemma firstMissing_None: "firstMissing ks m = None \<longleftrightarrow> (\<forall>k\<in>set ks. truthy (m k))"
  by (induction ks) auto

lemma startsWith_nonempty: "recognised s \<Longrightarrow> s \<noteq> []"
  by (auto simp add: recognised_def startsWith_def)

lemma parseVector_unfold:
  "parseVector rt input st =
     (if js_trim input = [] then (Alert EmptyInput, st)
      else if \<not> recognised (js_trim input) then (Alert InvalidFormat, st)
      else (case firstMissing (required (versionOf (js_trim input))) (extracted input) of
              Some metric \<Rightarrow>
                (Alert (MissingMetric metric),
                 if versionOf (js_trim input) \<noteq> currentVersion st
                 then \<lparr>currentVersion = versionOf (js_trim input),
                        currentMetrics = (if versionOf (js_trim input) = 3 then defaultV3 else defaultV4)\<rparr>
                 else st)
            | None \<Rightarrow>
                (case updateUI rt (parsedState input) of
                   Some e \<Rightarrow> (Uncaught e, parsedState input)
                 | None \<Rightarrow> (Done, parsedState input))))"
  unfolding parseVector_def switchVersion_eq Let_def
  unfolding recognised_def[symmetric] versionOf_def[symmetric] required_def[symmetric]
    segments_def[symmetric] extracted_def[symmetric]
  by (auto simp add: parsedState_def state_update split: option.splits)

lemma parseVector_recognised:
  assumes "recognised (js_trim input)"
  shows "parseVector rt input st =
     (case firstMissing (required (versionOf (js_trim input))) (extracted input) of
        Some metric \<Rightarrow>
          (Alert (MissingMetric metric),
           if versionOf (js_trim input) \<noteq> currentVersion st
           then \<lparr>currentVersion = versionOf (js_trim input),
                  currentMetrics = (if versionOf (js_trim input) = 3 then defaultV3 else defaultV4)\<rparr>
           else st)
      | None \<Rightarrow>
          (case updateUI rt (parsedState input) of
             Some e \<Rightarrow> (Uncaught e, parsedState input)
           | None \<Rightarrow> (Done, parsedState input)))"
  using assms startsWith_nonempty[OF assms]
  by (simp add: parseVector_unfold split del: if_split)

lemma parseVector_outcome:
  assumes "recognised (js_trim input)"
  shows "fst (parseVector rt input st) =
     (case firstMissing (required (versionOf (js_trim input))) (extracted input) of
        Some metric \<Rightarrow> Alert (MissingMetric metric)
      | None \<Rightarrow> (case updateUI rt (parsedState input) of Some e \<Rightarrow> Uncaught e | None \<Rightarrow> Done))"
  unfolding parseVector_recognised[OF assms]
  by (simp split: option.splits split del: if_split)

lemma parseVector_alerts:
  assumes "recognised (js_trim input)"
  shows "fst (parseVector rt input st) = Alert e \<longleftrightarrow>
     (\<exists>k. e = MissingMetric k
        \<and> firstMissing (required (versionOf (js_trim input))) (extracted input) = Some k)"
  unfolding parseVector_outcome[OF assms]
  by (auto split: option.splits)

lemma parseVector_state:
  assumes "recognised (js_trim input)"
    and "firstMissing (required (versionOf (js_trim input))) (extracted input) = None"
  shows "snd (parseVector rt input st) = parsedState input"
  unfolding parseVector_recognised[OF assms(1)] assms(2)
  by (simp split: option.splits)

lemma parseVector_Done:
  assumes "recognised (js_trim input)" "fst (parseVector rt input st) = Done"
  shows "parseVector rt input st = (Done, parsedState input)"
  using assms(2) unfolding parseVector_recognised[OF assms(1)]
  by (simp split: option.splits split del: if_split)

lemma updateUI_parsed_None:
  assumes "versionOf (js_trim input) = 4 \<or> extracted input ''PR'' \<in> {Some ''N'', Some ''L'', Some ''H''}"
  shows "updateUI rt (parsedState input) = None"
  using assms
proof
  assume "versionOf (js_trim input) = 4"
  then show ?thesis
    by (intro updateUI_v4) (simp add: parsedState_def)
next
  assume "extracted input ''PR'' \<in> {Some ''N'', Some ''L'', Some ''H''}"
  then show ?thesis
    by (intro updateUI_PR) (simp add: parsedState_def)
qed

lemma getProp_PR_Missing:
  assumes "p \<notin> {''N'', ''L'', ''H''}" "p \<notin> set objectPrototypeNames"
  shows "getProp CVSS3_WEIGHTS_PR (Some p) = Missing"
  using assms by (simp add: getProp_def str_def CVSS3_WEIGHTS_PR_def)

lemma updateUI_parsed_TypeError:
  assumes "versionOf (js_trim input) = 3" "extracted input ''PR'' = Some p"
    "p \<notin> {''N'', ''L'', ''H''}" "p \<notin> set objectPrototypeNames"
  shows "updateUI rt (parsedState input) = Some TypeError"
  using assms(1,2) getProp_PR_Missing[OF assms(3,4)]
  by (intro updateUI_Missing) (simp_all add: parsedState_def)

lemmas parse_eval = js_trim_def isWhiteSpace_def startsWith_def setProp_def requiredV3_def requiredV4_def
  recognised_def versionOf_def required_def extracted_def segments_def keyValuePair_def

lemma map_filter_append_list: "List.map_filter f (xs @ ys) = List.map_filter f xs @ List.map_filter f ys"
  by (simp add: List.map_filter_def)

lemma map_filter_no_key:
  assumes "\<forall>s\<in>set ys. \<forall>v'. f s \<noteq> Some (k, v')"
  shows "map_of (rev (List.map_filter f ys)) k = None"
proof -
  have "k \<notin> fst ` set (List.map_filter f ys)"
    using assms by (induction ys) (auto split: option.splits)
  then show ?thesis
    by (simp add: map_of_eq_None_iff)
qed

lemma js_trim_id:
  assumes "s \<noteq> []" "\<not> isWhiteSpace (hd s)" "\<not> isWhiteSpace (last s)"
  shows "js_trim s = s"
proof -
  from assms have 1: "dropWhile isWhiteSpace s = s"
    by (cases s) auto
  from assms have 2: "dropWhile isWhiteSpace (rev s) = rev s"
    by (cases "rev s") (auto simp: last_rev[symmetric] hd_rev)
  show ?thesis by (simp add: js_trim_def 1 2)
qed

lemma roundtrip_v3_values:
  assumes "updateUI rt \<lparr>currentVersion = 3, currentMetrics = [''AV'' \<mapsto> v1, ''AC'' \<mapsto> v2, ''PR'' \<mapsto> v3, ''UI'' \<mapsto> v4, ''S'' \<mapsto> v5, ''C'' \<mapsto> v6, ''I'' \<mapsto> v7, ''A'' \<mapsto> v8]\<rparr> = None"
      and "v1 \<noteq> []" "CHR ''/'' \<notin> set v1" "CHR '':'' \<notin> set v1"
      and "v2 \<noteq> []" "CHR ''/'' \<notin> set v2" "CHR '':'' \<notin> set v2"
      and "v3 \<noteq> []" "CHR ''/'' \<notin> set v3" "CHR '':'' \<notin> set v3"
      and "v4 \<noteq> []" "CHR ''/'' \<notin> set v4" "CHR '':'' \<notin> set v4"
      and "v5 \<noteq> []" "CHR ''/'' \<notin> set v5" "CHR '':'' \<notin> set v5"
      and "v6 \<noteq> []" "CHR ''/'' \<notin> set v6" "CHR '':'' \<notin> set v6"
      and "v7 \<noteq> []" "CHR ''/'' \<notin> set v7" "CHR '':'' \<notin> set v7"
      and "v8 \<noteq> []" "CHR ''/'' \<notin> set v8" "CHR '':'' \<notin> set v8" "\<not> isWhiteSpace (last v8)"
  shows "parseVector rt (''CVSS:3.1/AV:'' @ v1 @ ''/AC:'' @ v2 @ ''/PR:'' @ v3 @ ''/UI:'' @ v4 @ ''/S:'' @ v5 @ ''/C:'' @ v6 @ ''/I:'' @ v7 @ ''/A:'' @ v8) st0
       = (Done, \<lparr>currentVersion = 3, currentMetrics = [''AV'' \<mapsto> v1, ''AC'' \<mapsto> v2, ''PR'' \<mapsto> v3, ''UI'' \<mapsto> v4, ''S'' \<mapsto> v5, ''C'' \<mapsto> v6, ''I'' \<mapsto> v7, ''A'' \<mapsto> v8]\<rparr>)"
proof -
  let ?s = "''CVSS:3.1/AV:'' @ v1 @ ''/AC:'' @ v2 @ ''/PR:'' @ v3 @ ''/UI:'' @ v4 @ ''/S:'' @ v5 @ ''/C:'' @ v6 @ ''/I:'' @ v7 @ ''/A:'' @ v8"
  have t: "js_trim ?s = ?s"
    using assms by (intro js_trim_id) (simp_all add: isWhiteSpace_def)
  have sp: "js_split CHR ''/'' ?s = ''CVSS:3.1'' # [''AV:'' @ v1, ''AC:'' @ v2, ''PR:'' @ v3, ''UI:'' @ v4, ''S:'' @ v5, ''C:'' @ v6, ''I:'' @ v7, ''A:'' @ v8]"
    using assms by (simp add: js_split_append js_split_no_sep)
  have kv: "\<And>k v. k \<noteq> [] \<Longrightarrow> CHR '':'' \<notin> set k \<Longrightarrow> v \<noteq> [] \<Longrightarrow> CHR '':'' \<notin> set v
      \<Longrightarrow> keyValuePair (k @ CHR '':'' # v) = Some (k, v)"
    by (simp add: keyValuePair_def js_split_append js_split_no_sep)
  have pp: "parseParts [''AV:'' @ v1, ''AC:'' @ v2, ''PR:'' @ v3, ''UI:'' @ v4, ''S:'' @ v5, ''C:'' @ v6, ''I:'' @ v7, ''A:'' @ v8] Map.empty = [''AV'' \<mapsto> v1, ''AC'' \<mapsto> v2, ''PR'' \<mapsto> v3, ''UI'' \<mapsto> v4, ''S'' \<mapsto> v5, ''C'' \<mapsto> v6, ''I'' \<mapsto> v7, ''A'' \<mapsto> v8]"
    using assms kv [of "''AV''" v1] kv [of "''AC''" v2] kv [of "''PR''" v3] kv [of "''UI''" v4] kv [of "''S''" v5] kv [of "''C''" v6] kv [of "''I''" v7] kv [of "''A''" v8]
    by (simp add: parseParts_Cons setProp_def del: parseParts.simps(2))
  show ?thesis
    unfolding parseVector_def t Let_def sp list.sel(3) pp switchVersion_eq
    using assms(2-) by (simp add: startsWith_def requiredV3_def assms(1) state_update)
qed

lemma metrics_eq_v3:
  assumes "dom m = set requiredV3"
    "m ''AV'' = Some v1" "m ''AC'' = Some v2" "m ''PR'' = Some v3" "m ''UI'' = Some v4" "m ''S'' = Some v5" "m ''C'' = Some v6" "m ''I'' = Some v7" "m ''A'' = Some v8"
  shows "[''AV'' \<mapsto> v1, ''AC'' \<mapsto> v2, ''PR'' \<mapsto> v3, ''UI'' \<mapsto> v4, ''S'' \<mapsto> v5, ''C'' \<mapsto> v6, ''I'' \<mapsto> v7, ''A'' \<mapsto> v8] = m"
proof (rule ext)
  fix x
  show "[''AV'' \<mapsto> v1, ''AC'' \<mapsto> v2, ''PR'' \<mapsto> v3, ''UI'' \<mapsto> v4, ''S'' \<mapsto> v5, ''C'' \<mapsto> v6, ''I'' \<mapsto> v7, ''A'' \<mapsto> v8] x = m x"
  proof (cases "x \<in> set requiredV3")
    case True
    then show ?thesis using assms(2-) by (auto simp add: requiredV3_def)
  next
    case False
    then have "m x = None" using assms(1) by (auto simp add: domIff)
    then show ?thesis using False by (simp add: requiredV3_def)
  qed
qed

lemma roundtrip_v4_values:
  assumes "v1 \<noteq> []" "CHR ''/'' \<notin> set v1" "CHR '':'' \<notin> set v1"
      and "v2 \<noteq> []" "CHR ''/'' \<notin> set v2" "CHR '':'' \<notin> set v2"
      and "v3 \<noteq> []" "CHR ''/'' \<notin> set v3" "CHR '':'' \<notin> set v3"
      and "v4 \<noteq> []" "CHR ''/'' \<notin> set v4" "CHR '':'' \<notin> set v4"
      and "v5 \<noteq> []" "CHR ''/'' \<notin> set v5" "CHR '':'' \<notin> set v5"
      and "v6 \<noteq> []" "CHR ''/'' \<notin> set v6" "CHR '':'' \<notin> set v6"
      and "v7 \<noteq> []" "CHR ''/'' \<notin> set v7" "CHR '':'' \<notin> set v7"
      and "v8 \<noteq> []" "CHR ''/'' \<notin> set v8" "CHR '':'' \<notin> set v8"
      and "v9 \<noteq> []" "CHR ''/'' \<notin> set v9" "CHR '':'' \<notin> set v9"
      and "v10 \<noteq> []" "CHR ''/'' \<notin> set v10" "CHR '':'' \<notin> set v10"
      and "v11 \<noteq> []" "CHR ''/'' \<notin> set v11" "CHR '':'' \<notin> set v11" "\<not> isWhiteSpace (last v11)"
  shows "parseVector rt (''CVSS:4.0/AV:'' @ v1 @ ''/AC:'' @ v2 @ ''/AT:'' @ v3 @ ''/PR:'' @ v4 @ ''/UI:'' @ v5 @ ''/VC:'' @ v6 @ ''/VI:'' @ v7 @ ''/VA:'' @ v8 @ ''/SC:'' @ v9 @ ''/SI:'' @ v10 @ ''/SA:'' @ v11) st0
       = (Done, \<lparr>currentVersion = 4, currentMetrics = [''AV'' \<mapsto> v1, ''AC'' \<mapsto> v2, ''AT'' \<mapsto> v3, ''PR'' \<mapsto> v4, ''UI'' \<mapsto> v5, ''VC'' \<mapsto> v6, ''VI'' \<mapsto> v7, ''VA'' \<mapsto> v8, ''SC'' \<mapsto> v9, ''SI'' \<mapsto> v10, ''SA'' \<mapsto> v11]\<rparr>)"
proof -
  let ?s = "''CVSS:4.0/AV:'' @ v1 @ ''/AC:'' @ v2 @ ''/AT:'' @ v3 @ ''/PR:'' @ v4 @ ''/UI:'' @ v5 @ ''/VC:'' @ v6 @ ''/VI:'' @ v7 @ ''/VA:'' @ v8 @ ''/SC:'' @ v9 @ ''/SI:'' @ v10 @ ''/SA:'' @ v11"
  have t: "js_trim ?s = ?s"
    using assms by (intro js_trim_id) (simp_all add: isWhiteSpace_def)
  have sp: "js_split CHR ''/'' ?s = ''CVSS:4.0'' # [''AV:'' @ v1, ''AC:'' @ v2, ''AT:'' @ v3, ''PR:'' @ v4, ''UI:'' @ v5, ''VC:'' @ v6, ''VI:'' @ v7, ''VA:'' @ v8, ''SC:'' @ v9, ''SI:'' @ v10, ''SA:'' @ v11]"
    using assms by (simp add: js_split_append js_split_no_sep)
  have kv: "\<And>k v. k \<noteq> [] \<Longrightarrow> CHR '':'' \<notin> set k \<Longrightarrow> v \<noteq> [] \<Longrightarrow> CHR '':'' \<notin> set v
      \<Longrightarrow> keyValuePair (k @ CHR '':'' # v) = Some (k, v)"
    by (simp add: keyValuePair_def js_split_append js_split_no_sep)
  have pp: "parseParts [''AV:'' @ v1, ''AC:'' @ v2, ''AT:'' @ v3, ''PR:'' @ v4, ''UI:'' @ v5, ''VC:'' @ v6, ''VI:'' @ v7, ''VA:'' @ v8, ''SC:'' @ v9, ''SI:'' @ v10, ''SA:'' @ v11] Map.empty = [''AV'' \<mapsto> v1, ''AC'' \<mapsto> v2, ''AT'' \<mapsto> v3, ''PR'' \<mapsto> v4, ''UI'' \<mapsto> v5, ''VC'' \<mapsto> v6, ''VI'' \<mapsto> v7, ''VA'' \<mapsto> v8, ''SC'' \<mapsto> v9, ''SI'' \<mapsto> v10, ''SA'' \<mapsto> v11]"
    using assms kv [of "''AV''" v1] kv [of "''AC''" v2] kv [of "''AT''" v3] kv [of "''PR''" v4] kv [of "''UI''" v5] kv [of "''VC''" v6] kv [of "''VI''" v7] kv [of "''VA''" v8] kv [of "''SC''" v9] kv [of "''SI''" v10] kv [of "''SA''" v11]
    by (simp add: parseParts_Cons setProp_def del: parseParts.simps(2))
  have u: "updateUI rt \<lparr>currentVersion = 4, currentMetrics = m\<rparr> = None" for m
    by (intro updateUI_v4) simp
  show ?thesis
    unfolding parseVector_def t Let_def sp list.sel(3) pp switchVersion_eq
    using assms by (simp add: startsWith_def requiredV4_def u state_update)
qed

lemma metrics_eq_v4:
  assumes "dom m = set requiredV4"
    "m ''AV'' = Some v1" "m ''AC'' = Some v2" "m ''AT'' = Some v3" "m ''PR'' = Some v4" "m ''UI'' = Some v5" "m ''VC'' = Some v6" "m ''VI'' = Some v7" "m ''VA'' = Some v8" "m ''SC'' = Some v9" "m ''SI'' = Some v10" "m ''SA'' = Some v11"
  shows "[''AV'' \<mapsto> v1, ''AC'' \<mapsto> v2, ''AT'' \<mapsto> v3, ''PR'' \<mapsto> v4, ''UI'' \<mapsto> v5, ''VC'' \<mapsto> v6, ''VI'' \<mapsto> v7, ''VA'' \<mapsto> v8, ''SC'' \<mapsto> v9, ''SI'' \<mapsto> v10, ''SA'' \<mapsto> v11] = m"
proof (rule ext)
  fix x
  show "[''AV'' \<mapsto> v1, ''AC'' \<mapsto> v2, ''AT'' \<mapsto> v3, ''PR'' \<mapsto> v4, ''UI'' \<mapsto> v5, ''VC'' \<mapsto> v6, ''VI'' \<mapsto> v7, ''VA'' \<mapsto> v8, ''SC'' \<mapsto> v9, ''SI'' \<mapsto> v10, ''SA'' \<mapsto> v11] x = m x"
  proof (cases "x \<in> set requiredV4")
    case True
    then show ?thesis using assms(2-) by (auto simp add: requiredV4_def)
  next
    case False
    then have "m x = None" using assms(1) by (auto simp add: domIff)
    then show ?thesis using False by (simp add: requiredV4_def)
  qed
qed


section \<open>Round trip\<close>

text \<open>
  Claim C4.  For every legal metric set of either shape, held in the state with its
  version, parsing the vector that \<open>generateVector\<close> produces succeeds from any state,
  without an alert or an exception, and gives back exactly that version and that metric
  set.
\<close>

theorem roundtrip:
  assumes "legalState st"
  shows "parseVector rt (generateVector st) st0 = (Done, st)"
proof -
  let ?m = "currentMetrics st"
  from assms consider
      (v3) "currentVersion st = 3" "legalV3 ?m"
    | (v4) "currentVersion st = 4" "legalV4 ?m"
    by (auto simp add: legalState_def)
  then show ?thesis
  proof cases
    case v3
    from v3(2) have d: "dom ?m = set requiredV3" by (simp add: legalV3_def)
    have "?m ''AV'' \<in> {Some ''N'', Some ''A'', Some ''L'', Some ''P''}"
      using v3(2) by (simp add: legalV3_def)
    then obtain v1 where c1: "?m ''AV'' = Some v1 \<and> v1 \<noteq> [] \<and> CHR ''/'' \<notin> set v1 \<and> CHR '':'' \<notin> set v1"
      by (auto simp add: isWhiteSpace_def)
    have "?m ''AC'' \<in> {Some ''L'', Some ''H''}"
      using v3(2) by (simp add: legalV3_def)
    then obtain v2 where c2: "?m ''AC'' = Some v2 \<and> v2 \<noteq> [] \<and> CHR ''/'' \<notin> set v2 \<and> CHR '':'' \<notin> set v2"
      by (auto simp add: isWhiteSpace_def)
    have "?m ''PR'' \<in> {Some ''N'', Some ''L'', Some ''H''}"
      using v3(2) by (simp add: legalV3_def)
    then obtain v3 where c3: "?m ''PR'' = Some v3 \<and> v3 \<noteq> [] \<and> CHR ''/'' \<notin> set v3 \<and> CHR '':'' \<notin> set v3"
      by (auto simp add: isWhiteSpace_def)
    have "?m ''UI'' \<in> {Some ''N'', Some ''R''}"
      using v3(2) by (simp add: legalV3_def)
    then obtain v4 where c4: "?m ''UI'' = Some v4 \<and> v4 \<noteq> [] \<and> CHR ''/'' \<notin> set v4 \<and> CHR '':'' \<notin> set v4"
      by (auto simp add: isWhiteSpace_def)
    have "?m ''S'' \<in> {Some ''U'', Some ''C''}"
      using v3(2) by (simp add: legalV3_def)
    then obtain v5 where c5: "?m ''S'' = Some v5 \<and> v5 \<noteq> [] \<and> CHR ''/'' \<notin> set v5 \<and> CHR '':'' \<notin> set v5"
      by (auto simp add: isWhiteSpace_def)
    have "?m ''C'' \<in> {Some ''N'', Some ''L'', Some ''H''}"
      using v3(2) by (simp add: legalV3_def)
    then obtain v6 where c6: "?m ''C'' = Some v6 \<and> v6 \<noteq> [] \<and> CHR ''/'' \<notin> set v6 \<and> CHR '':'' \<notin> set v6"
      by (auto simp add: isWhiteSpace_def)
    have "?m ''I'' \<in> {Some ''N'', Some ''L'', Some ''H''}"
      using v3(2) by (simp add: legalV3_def)
    then obtain v7 where c7: "?m ''I'' = Some v7 \<and> v7 \<noteq> [] \<and> CHR ''/'' \<notin> set v7 \<and> CHR '':'' \<notin> set v7"
      by (auto simp add: isWhiteSpace_def)
    have "?m ''A'' \<in> {Some ''N'', Some ''L'', Some ''H''}"
      using v3(2) by (simp add: legalV3_def)
    then obtain v8 where c8: "?m ''A'' = Some v8 \<and> v8 \<noteq> [] \<and> CHR ''/'' \<notin> set v8 \<and> CHR '':'' \<notin> set v8 \<and> \<not> isWhiteSpace (last v8)"
      by (auto simp add: isWhiteSpace_def)
    have g: "generateVector st = ''CVSS:3.1/AV:'' @ v1 @ ''/AC:'' @ v2 @ ''/PR:'' @ v3 @ ''/UI:'' @ v4 @ ''/S:'' @ v5 @ ''/C:'' @ v6 @ ''/I:'' @ v7 @ ''/A:'' @ v8"
      using v3(1) c1 c2 c3 c4 c5 c6 c7 c8 by (simp add: generateVector_def str_def)
    have e: "\<lparr>currentVersion = 3, currentMetrics = ?m\<rparr> = st"
      using v3(1) by simp
    have m: "[''AV'' \<mapsto> v1, ''AC'' \<mapsto> v2, ''PR'' \<mapsto> v3, ''UI'' \<mapsto> v4, ''S'' \<mapsto> v5, ''C'' \<mapsto> v6, ''I'' \<mapsto> v7, ''A'' \<mapsto> v8] = ?m"
      using c1 c2 c3 c4 c5 c6 c7 c8 by (intro metrics_eq_v3 [OF d]) simp_all
    have u: "updateUI rt \<lparr>currentVersion = 3, currentMetrics = [''AV'' \<mapsto> v1, ''AC'' \<mapsto> v2, ''PR'' \<mapsto> v3, ''UI'' \<mapsto> v4, ''S'' \<mapsto> v5, ''C'' \<mapsto> v6, ''I'' \<mapsto> v7, ''A'' \<mapsto> v8]\<rparr> = None"
      by (simp only: m e updateUI_legal[OF assms])
    have r: "parseVector rt (generateVector st) st0 = (Done, \<lparr>currentVersion = 3, currentMetrics = [''AV'' \<mapsto> v1, ''AC'' \<mapsto> v2, ''PR'' \<mapsto> v3, ''UI'' \<mapsto> v4, ''S'' \<mapsto> v5, ''C'' \<mapsto> v6, ''I'' \<mapsto> v7, ''A'' \<mapsto> v8]\<rparr>)"
      unfolding g using c1 c2 c3 c4 c5 c6 c7 c8 by (intro roundtrip_v3_values u) simp_all
    show ?thesis
      by (simp only: r m e)
  next
    case v4
    from v4(2) have d: "dom ?m = set requiredV4" by (simp add: legalV4_def)
    have "?m ''AV'' \<in> {Some ''N'', Some ''A'', Some ''L'', Some ''P''}"
      using v4(2) by (simp add: legalV4_def)
    then obtain v1 where c1: "?m ''AV'' = Some v1 \<and> v1 \<noteq> [] \<and> CHR ''/'' \<notin> set v1 \<and> CHR '':'' \<notin> set v1"
      by (auto simp add: isWhiteSpace_def)
    have "?m ''AC'' \<in> {Some ''L'', Some ''H''}"
      using v4(2) by (simp add: legalV4_def)
    then obtain v2 where c2: "?m ''AC'' = Some v2 \<and> v2 \<noteq> [] \<and> CHR ''/'' \<notin> set v2 \<and> CHR '':'' \<notin> set v2"
      by (auto simp add: isWhiteSpace_def)
    have "?m ''AT'' \<in> {Some ''N'', Some ''P''}"
      using v4(2) by (simp add: legalV4_def)
    then obtain v3 where c3: "?m ''AT'' = Some v3 \<and> v3 \<noteq> [] \<and> CHR ''/'' \<notin> set v3 \<and> CHR '':'' \<notin> set v3"
      by (auto simp add: isWhiteSpace_def)
    have "?m ''PR'' \<in> {Some ''N'', Some ''L'', Some ''H''}"
      using v4(2) by (simp add: legalV4_def)
    then obtain v4 where c4: "?m ''PR'' = Some v4 \<and> v4 \<noteq> [] \<and> CHR ''/'' \<notin> set v4 \<and> CHR '':'' \<notin> set v4"
      by (auto simp add: isWhiteSpace_def)
    have "?m ''UI'' \<in> {Some ''N'', Some ''P'', Some ''A''}"
      using v4(2) by (simp add: legalV4_def)
    then obtain v5 where c5: "?m ''UI'' = Some v5 \<and> v5 \<noteq> [] \<and> CHR ''/'' \<notin> set v5 \<and> CHR '':'' \<notin> set v5"
      by (auto simp add: isWhiteSpace_def)
    have "?m ''VC'' \<in> {Some ''N'', Some ''L'', Some ''H''}"
      using v4(2) by (simp add: legalV4_def)
    then obtain v6 where c6: "?m ''VC'' = Some v6 \<and> v6 \<noteq> [] \<and> CHR ''/'' \<notin> set v6 \<and> CHR '':'' \<notin> set v6"
      by (auto simp add: isWhiteSpace_def)
    have "?m ''VI'' \<in> {Some ''N'', Some ''L'', Some ''H''}"
      using v4(2) by (simp add: legalV4_def)
    then obtain v7 where c7: "?m ''VI'' = Some v7 \<and> v7 \<noteq> [] \<and> CHR ''/'' \<notin> set v7 \<and> CHR '':'' \<notin> set v7"
      by (auto simp add: isWhiteSpace_def)
    have "?m ''VA'' \<in> {Some ''N'', Some ''L'', Some ''H''}"
      using v4(2) by (simp add: legalV4_def)
    then obtain v8 where c8: "?m ''VA'' = Some v8 \<and> v8 \<noteq> [] \<and> CHR ''/'' \<notin> set v8 \<and> CHR '':'' \<notin> set v8"
      by (auto simp add: isWhiteSpace_def)
    have "?m ''SC'' \<in> {Some ''N'', Some ''L'', Some ''H''}"
      using v4(2) by (simp add: legalV4_def)
    then obtain v9 where c9: "?m ''SC'' = Some v9 \<and> v9 \<noteq> [] \<and> CHR ''/'' \<notin> set v9 \<and> CHR '':'' \<notin> set v9"
      by (auto simp add: isWhiteSpace_def)
    have "?m ''SI'' \<in> {Some ''N'', Some ''L'', Some ''H''}"
      using v4(2) by (simp add: legalV4_def)
    then obtain v10 where c10: "?m ''SI'' = Some v10 \<and> v10 \<noteq> [] \<and> CHR ''/'' \<notin> set v10 \<and> CHR '':'' \<notin> set v10"
      by (auto simp add: isWhiteSpace_def)
    have "?m ''SA'' \<in> {Some ''N'', Some ''L'', Some ''H''}"
      using v4(2) by (simp add: legalV4_def)
    then obtain v11 where c11: "?m ''SA'' = Some v11 \<and> v11 \<noteq> [] \<and> CHR ''/'' \<notin> set v11 \<and> CHR '':'' \<notin> set v11 \<and> \<not> isWhiteSpace (last v11)"
      by (auto simp add: isWhiteSpace_def)
    have g: "generateVector st = ''CVSS:4.0/AV:'' @ v1 @ ''/AC:'' @ v2 @ ''/AT:'' @ v3 @ ''/PR:'' @ v4 @ ''/UI:'' @ v5 @ ''/VC:'' @ v6 @ ''/VI:'' @ v7 @ ''/VA:'' @ v8 @ ''/SC:'' @ v9 @ ''/SI:'' @ v10 @ ''/SA:'' @ v11"
      using v4(1) c1 c2 c3 c4 c5 c6 c7 c8 c9 c10 c11 by (simp add: generateVector_def str_def)
    have e: "\<lparr>currentVersion = 4, currentMetrics = ?m\<rparr> = st"
      using v4(1) by simp
    have r: "parseVector rt (generateVector st) st0 = (Done, \<lparr>currentVersion = 4, currentMetrics = [''AV'' \<mapsto> v1, ''AC'' \<mapsto> v2, ''AT'' \<mapsto> v3, ''PR'' \<mapsto> v4, ''UI'' \<mapsto> v5, ''VC'' \<mapsto> v6, ''VI'' \<mapsto> v7, ''VA'' \<mapsto> v8, ''SC'' \<mapsto> v9, ''SI'' \<mapsto> v10, ''SA'' \<mapsto> v11]\<rparr>)"
      unfolding g using c1 c2 c3 c4 c5 c6 c7 c8 c9 c10 c11 by (intro roundtrip_v4_values) simp_all
    have m: "[''AV'' \<mapsto> v1, ''AC'' \<mapsto> v2, ''AT'' \<mapsto> v3, ''PR'' \<mapsto> v4, ''UI'' \<mapsto> v5, ''VC'' \<mapsto> v6, ''VI'' \<mapsto> v7, ''VA'' \<mapsto> v8, ''SC'' \<mapsto> v9, ''SI'' \<mapsto> v10, ''SA'' \<mapsto> v11] = ?m"
      using c1 c2 c3 c4 c5 c6 c7 c8 c9 c10 c11 by (intro metrics_eq_v4 [OF d]) simp_all
    show ?thesis
      by (simp only: r m e)
  qed
qed



theorem roundtrip_witness:
  "legalState \<lparr>currentVersion = 4, currentMetrics = scenarioV4\<rparr>
   \<and> generateVector \<lparr>currentVersion = 4, currentMetrics = scenarioV4\<rparr>
       = ''CVSS:4.0/AV:A/AC:H/AT:P/PR:L/UI:P/VC:L/VI:N/VA:H/SC:H/SI:L/SA:L''
   \<and> parseVector sampleRuntime ''CVSS:4.0/AV:A/AC:H/AT:P/PR:L/UI:P/VC:L/VI:N/VA:H/SC:H/SI:L/SA:L'' initialState
       = (Done, \<lparr>currentVersion = 4, currentMetrics = scenarioV4\<rparr>)"
proof -
  have l: "legalState \<lparr>currentVersion = 4, currentMetrics = scenarioV4\<rparr>"
    by (simp add: legalState_def legalV4_scenarioV4)
  have g: "generateVector \<lparr>currentVersion = 4, currentMetrics = scenarioV4\<rparr>
       = ''CVSS:4.0/AV:A/AC:H/AT:P/PR:L/UI:P/VC:L/VI:N/VA:H/SC:H/SI:L/SA:L''"
    by (simp add: generateVector_def scenarioV4_def str_def)
  show ?thesis
    using roundtrip [OF l, of sampleRuntime initialState] l g by simp
qed

section \<open>The contract of the parser\<close>

text \<open>
  Claim C5, amended.  The input is trimmed first.  An input that is empty after trimming
  is rejected with the alert of its own (\<open>EmptyInput\<close>); otherwise \<open>InvalidFormat\<close> is
  raised exactly when the trimmed input does not start with \<open>CVSS:3.0\<close>, \<open>CVSS:3.1\<close> or
  \<open>CVSS:4.0\<close>.  With a recognised prefix, \<open>MissingMetric k\<close> is raised exactly when \<open>k\<close>
  is the first key, in the order of the required keys of the version, that the extraction
  has left absent.
\<close>

theorem parse_error_contract:
  "(fst (parseVector rt input st) = Alert EmptyInput \<longleftrightarrow> js_trim input = [])
   \<and> (fst (parseVector rt input st) = Alert InvalidFormat \<longleftrightarrow>
        js_trim input \<noteq> [] \<and> \<not> recognised (js_trim input))
   \<and> (recognised (js_trim input) \<longrightarrow>
        (\<forall>k. fst (parseVector rt input st) = Alert (MissingMetric k) \<longleftrightarrow>
           (\<exists>ys zs. required (versionOf (js_trim input)) = ys @ k # zs
              \<and> (\<forall>y\<in>set ys. extracted input y \<noteq> None) \<and> extracted input k = None)))"
proof (intro conjI impI allI)
  show "fst (parseVector rt input st) = Alert EmptyInput \<longleftrightarrow> js_trim input = []"
  proof (cases "recognised (js_trim input)")
    case True
    then show ?thesis
      using startsWith_nonempty[OF True] by (simp add: parseVector_alerts)
  next
    case False
    then show ?thesis
      by (simp add: parseVector_unfold)
  qed
  show "fst (parseVector rt input st) = Alert InvalidFormat \<longleftrightarrow>
        js_trim input \<noteq> [] \<and> \<not> recognised (js_trim input)"
  proof (cases "recognised (js_trim input)")
    case True
    then show ?thesis
      by (simp add: parseVector_alerts)
  next
    case False
    then show ?thesis
      by (simp add: parseVector_unfold)
  qed
next
  fix k
  assume r: "recognised (js_trim input)"
  show "fst (parseVector rt input st) = Alert (MissingMetric k) \<longleftrightarrow>
           (\<exists>ys zs. required (versionOf (js_trim input)) = ys @ k # zs
              \<and> (\<forall>y\<in>set ys. extracted input y \<noteq> None) \<and> extracted input k = None)"
    unfolding parseVector_alerts[OF r]
    using firstMissing_Some[of "required (versionOf (js_trim input))" "extracted input" k]
    by (auto simp add: extracted_truthy)
qed

theorem parse_error_contract_witness:
  "fst (parseVector sampleRuntime ''CVSS:2.0/AV:N/AC:L/Au:N/C:P/I:P/A:P'' initialState) = Alert InvalidFormat
   \<and> recognised (js_trim ''CVSS:3.1/AV:N/AC:L'')
   \<and> fst (parseVector sampleRuntime ''CVSS:3.1/AV:N/AC:L'' initialState) = Alert (MissingMetric ''PR'')"
proof (intro conjI)
  have "js_trim ''CVSS:2.0/AV:N/AC:L/Au:N/C:P/I:P/A:P'' \<noteq> []
      \<and> \<not> recognised (js_trim ''CVSS:2.0/AV:N/AC:L/Au:N/C:P/I:P/A:P'')"
    by (simp add: parse_eval)
  then show "fst (parseVector sampleRuntime ''CVSS:2.0/AV:N/AC:L/Au:N/C:P/I:P/A:P'' initialState)
      = Alert InvalidFormat"
    using parse_error_contract [of sampleRuntime "''CVSS:2.0/AV:N/AC:L/Au:N/C:P/I:P/A:P''" initialState]
    by blast
  show r: "recognised (js_trim ''CVSS:3.1/AV:N/AC:L'')"
    by (simp add: parse_eval)
  have "required (versionOf (js_trim ''CVSS:3.1/AV:N/AC:L'')) = [''AV'', ''AC''] @ ''PR'' # [''UI'', ''S'', ''C'', ''I'', ''A'']
      \<and> (\<forall>y\<in>set [''AV'', ''AC'']. extracted ''CVSS:3.1/AV:N/AC:L'' y \<noteq> None)
      \<and> extracted ''CVSS:3.1/AV:N/AC:L'' ''PR'' = None"
    by (simp add: parse_eval)
  then show "fst (parseVector sampleRuntime ''CVSS:3.1/AV:N/AC:L'' initialState) = Alert (MissingMetric ''PR'')"
    using parse_error_contract [of sampleRuntime "''CVSS:3.1/AV:N/AC:L''" initialState] r by blast
qed

text \<open>
  The claim as stated fails on an input with leading white space: it does not start with
  any of the three prefixes, and is parsed all the same.  It also fails on the empty
  input, which does not start with a prefix either and raises the other alert.
\<close>

theorem parse_error_contract_counterexample:
  "\<not> recognised '' CVSS:3.1/AV:N/AC:L/PR:N/UI:N/S:U/C:H/I:H/A:H''
   \<and> parseVector sampleRuntime '' CVSS:3.1/AV:N/AC:L/PR:N/UI:N/S:U/C:H/I:H/A:H'' initialState
       = (Done, \<lparr>currentVersion = 3, currentMetrics = scenario1\<rparr>)
   \<and> \<not> recognised []
   \<and> parseVector sampleRuntime [] initialState = (Alert EmptyInput, initialState)"
proof -
  let ?v = "'' CVSS:3.1/AV:N/AC:L/PR:N/UI:N/S:U/C:H/I:H/A:H''"
  have p: "parsedState ?v = \<lparr>currentVersion = 3, currentMetrics = scenario1\<rparr>"
    by (simp add: parsedState_def parse_eval scenario1_def)
  have u: "updateUI sampleRuntime (parsedState ?v) = None"
    unfolding p by (rule updateUI_PR) (simp add: scenario1_def)
  have "parseVector sampleRuntime ?v initialState = (Done, parsedState ?v)"
    unfolding parseVector_unfold u by (simp add: parse_eval)
  then show ?thesis
    unfolding p by (simp add: parseVector_unfold parse_eval)
qed

text \<open>
  Claim C6 fails: \<open>AV:X\<close> in a v3 vector is accepted, and the metric set that becomes
  the current one holds the value \<open>X\<close>.
\<close>

theorem invalid_value_counterexample:
  "recognised ''CVSS:3.1/AV:X/AC:L/PR:N/UI:N/S:U/C:H/I:H/A:H''
   \<and> parseVector sampleRuntime ''CVSS:3.1/AV:X/AC:L/PR:N/UI:N/S:U/C:H/I:H/A:H'' initialState
       = (Done, \<lparr>currentVersion = 3, currentMetrics = illegalAV\<rparr>)
   \<and> illegalAV ''AV'' = Some ''X''
   \<and> \<not> legalV3 illegalAV"
proof -
  let ?v = "''CVSS:3.1/AV:X/AC:L/PR:N/UI:N/S:U/C:H/I:H/A:H''"
  have p: "parsedState ?v = \<lparr>currentVersion = 3, currentMetrics = illegalAV\<rparr>"
    by (simp add: parsedState_def parse_eval illegalAV_def)
  have u: "updateUI sampleRuntime (parsedState ?v) = None"
    unfolding p by (rule updateUI_PR) (simp add: illegalAV_def)
  have "parseVector sampleRuntime ?v initialState = (Done, parsedState ?v)"
    unfolding parseVector_unfold u by (simp add: parse_eval)
  then show ?thesis
    unfolding p by (simp add: parse_eval illegalAV_def legalV3_def)
qed

text \<open>
  Claim C6, amended.  Values are never compared with a legal set, and there is no error
  for a value.  With a recognised prefix, the only alert is \<open>MissingMetric\<close> for a
  required key that the extraction has left absent.  When every required key has a value,
  whatever it is, no alert is raised and the extracted metrics, values as written, become
  the current ones.  Showing their score then ends the function normally if the version
  is 4 or PR is N, L or H; it ends it with a \<open>TypeError\<close> that nothing catches if the
  version is 3 and the value of PR is neither N, L or H nor the name of a member of
  \<open>Object.prototype\<close>.
\<close>

theorem parse_never_checks_values:
  assumes "recognised (js_trim input)"
  shows "(\<forall>e. fst (parseVector rt input st) = Alert e \<longrightarrow>
            (\<exists>k. e = MissingMetric k \<and> k \<in> set (required (versionOf (js_trim input)))
                 \<and> extracted input k = None))
       \<and> ((\<forall>k\<in>set (required (versionOf (js_trim input))). \<exists>v. extracted input k = Some v) \<longrightarrow>
            (\<forall>e. fst (parseVector rt input st) \<noteq> Alert e)
            \<and> snd (parseVector rt input st) =
                \<lparr>currentVersion = versionOf (js_trim input), currentMetrics = extracted input\<rparr>
            \<and> (versionOf (js_trim input) = 4
                 \<or> extracted input ''PR'' \<in> {Some ''N'', Some ''L'', Some ''H''} \<longrightarrow>
               fst (parseVector rt input st) = Done)
            \<and> (\<forall>p. versionOf (js_trim input) = 3 \<and> extracted input ''PR'' = Some p
                   \<and> p \<notin> {''N'', ''L'', ''H''} \<and> p \<notin> set objectPrototypeNames \<longrightarrow>
               fst (parseVector rt input st) = Uncaught TypeError))"
proof (intro conjI allI impI)
  fix e
  assume "fst (parseVector rt input st) = Alert e"
  then obtain k where k: "e = MissingMetric k"
      "firstMissing (required (versionOf (js_trim input))) (extracted input) = Some k"
    unfolding parseVector_alerts[OF assms] by auto
  from k(2) have "k \<in> set (required (versionOf (js_trim input))) \<and> extracted input k = None"
    unfolding firstMissing_Some by (auto simp add: extracted_truthy)
  with k(1) show "\<exists>k. e = MissingMetric k \<and> k \<in> set (required (versionOf (js_trim input)))
                 \<and> extracted input k = None"
    by blast
next
  fix e
  assume "\<forall>k\<in>set (required (versionOf (js_trim input))). \<exists>v. extracted input k = Some v"
  then have n: "firstMissing (required (versionOf (js_trim input))) (extracted input) = None"
    by (auto simp add: firstMissing_None extracted_truthy)
  show "fst (parseVector rt input st) \<noteq> Alert e"
    unfolding parseVector_alerts[OF assms] n by simp
next
  assume "\<forall>k\<in>set (required (versionOf (js_trim input))). \<exists>v. extracted input k = Some v"
  then have n: "firstMissing (required (versionOf (js_trim input))) (extracted input) = None"
    by (auto simp add: firstMissing_None extracted_truthy)
  show "snd (parseVector rt input st) =
      \<lparr>currentVersion = versionOf (js_trim input), currentMetrics = extracted input\<rparr>"
    using parseVector_state[OF assms n] by (simp add: parsedState_def)
next
  assume "\<forall>k\<in>set (required (versionOf (js_trim input))). \<exists>v. extracted input k = Some v"
  then have n: "firstMissing (required (versionOf (js_trim input))) (extracted input) = None"
    by (auto simp add: firstMissing_None extracted_truthy)
  assume "versionOf (js_trim input) = 4
      \<or> extracted input ''PR'' \<in> {Some ''N'', Some ''L'', Some ''H''}"
  then have "updateUI rt (parsedState input) = None"
    by (rule updateUI_parsed_None)
  then show "fst (parseVector rt input st) = Done"
    unfolding parseVector_outcome[OF assms] n by simp
next
  fix p
  assume "\<forall>k\<in>set (required (versionOf (js_trim input))). \<exists>v. extracted input k = Some v"
  then have n: "firstMissing (required (versionOf (js_trim input))) (extracted input) = None"
    by (auto simp add: firstMissing_None extracted_truthy)
  assume "versionOf (js_trim input) = 3 \<and> extracted input ''PR'' = Some p
      \<and> p \<notin> {''N'', ''L'', ''H''} \<and> p \<notin> set objectPrototypeNames"
  then have "updateUI rt (parsedState input) = Some TypeError"
    using updateUI_parsed_TypeError[of input p rt] by blast
  then show "fst (parseVector rt input st) = Uncaught TypeError"
    unfolding parseVector_outcome[OF assms] n by simp
qed

theorem parse_never_checks_values_witness:
  "recognised (js_trim ''CVSS:3.1/AV:X/AC:L/PR:N/UI:N/S:U/C:H/I:H/A:H'')
   \<and> parseVector sampleRuntime ''CVSS:3.1/AV:X/AC:L/PR:N/UI:N/S:U/C:H/I:H/A:H'' initialState
       = (Done, \<lparr>currentVersion = 3, currentMetrics = illegalAV\<rparr>)
   \<and> recognised (js_trim ''CVSS:3.1/AV:N/AC:L/PR:X/UI:N/S:U/C:H/I:H/A:H'')
   \<and> parseVector sampleRuntime ''CVSS:3.1/AV:N/AC:L/PR:X/UI:N/S:U/C:H/I:H/A:H'' initialState
       = (Uncaught TypeError, \<lparr>currentVersion = 3, currentMetrics = illegalPR\<rparr>)"
proof -
  let ?v = "''CVSS:3.1/AV:X/AC:L/PR:N/UI:N/S:U/C:H/I:H/A:H''"
  let ?w = "''CVSS:3.1/AV:N/AC:L/PR:X/UI:N/S:U/C:H/I:H/A:H''"
  have r: "recognised (js_trim ?v)"
    by (simp add: parse_eval)
  have v: "versionOf (js_trim ?v) = 3"
    by (simp add: parse_eval)
  have a: "\<forall>k\<in>set (required (versionOf (js_trim ?v))). \<exists>v. extracted ?v k = Some v"
    by (simp add: parse_eval)
  have x: "extracted ?v = illegalAV"
    by (simp add: parse_eval illegalAV_def)
  have pr: "extracted ?v ''PR'' \<in> {Some ''N'', Some ''L'', Some ''H''}"
    by (simp add: parse_eval)
  from parse_never_checks_values [OF r, of sampleRuntime initialState] a pr
  have "fst (parseVector sampleRuntime ?v initialState) = Done
      \<and> snd (parseVector sampleRuntime ?v initialState)
          = \<lparr>currentVersion = versionOf (js_trim ?v), currentMetrics = extracted ?v\<rparr>"
    by blast
  then have 1: "parseVector sampleRuntime ?v initialState
      = (Done, \<lparr>currentVersion = 3, currentMetrics = illegalAV\<rparr>)"
    unfolding v x by (simp add: prod_eq_iff)
  have r': "recognised (js_trim ?w)"
    by (simp add: parse_eval)
  have v': "versionOf (js_trim ?w) = 3"
    by (simp add: parse_eval)
  have a': "\<forall>k\<in>set (required (versionOf (js_trim ?w))). \<exists>v. extracted ?w k = Some v"
    by (simp add: parse_eval)
  have x': "extracted ?w = illegalPR"
    by (simp add: parse_eval illegalPR_def)
  have pr': "extracted ?w ''PR'' = Some ''X'' \<and> ''X'' \<notin> {''N'', ''L'', ''H''}
      \<and> ''X'' \<notin> set objectPrototypeNames"
    by (simp add: parse_eval objectPrototypeNames_def)
  from parse_never_checks_values [OF r', of sampleRuntime initialState] a' pr' v'
  have "fst (parseVector sampleRuntime ?w initialState) = Uncaught TypeError
      \<and> snd (parseVector sampleRuntime ?w initialState)
          = \<lparr>currentVersion = versionOf (js_trim ?w), currentMetrics = extracted ?w\<rparr>"
    by blast
  then have 2: "parseVector sampleRuntime ?w initialState
      = (Uncaught TypeError, \<lparr>currentVersion = 3, currentMetrics = illegalPR\<rparr>)"
    unfolding v' x' by (simp add: prod_eq_iff)
  show ?thesis
    using r 1 r' 2 by blast
qed

text \<open>
  Claim C7 fails where a segment has more than one colon: the code splits at every colon
  and keeps the first two pieces.  Splitting \<open>AV:N:X\<close> once gives the value \<open>N:X\<close>, the
  code stores \<open>N\<close>; splitting \<open>AV::N\<close> once gives the non-empty value \<open>:N\<close>, the code
  skips the segment.  It also fails where text follows the prefix before the first \<open>/\<close>:
  that text is a segment of the remainder, and the code drops it with the prefix.
\<close>

theorem segment_split_counterexample:
  "specSplitOnce ''AV:N:X'' = Some (''AV'', ''N:X'')
   \<and> keyValuePair ''AV:N:X'' = Some (''AV'', ''N'')
   \<and> parseVector sampleRuntime ''CVSS:3.1/AV:N:X/AC:L/PR:N/UI:N/S:U/C:H/I:H/A:H'' initialState
       = (Done, \<lparr>currentVersion = 3, currentMetrics = scenario1\<rparr>)
   \<and> specSplitOnce ''AV::N'' = Some (''AV'', '':N'')
   \<and> keyValuePair ''AV::N'' = None
   \<and> specSegments ''CVSS:3.1AV:N/AC:L/PR:N/UI:N/S:U/C:H/I:H/A:H''
       = [''AV:N'', ''AC:L'', ''PR:N'', ''UI:N'', ''S:U'', ''C:H'', ''I:H'', ''A:H'']
   \<and> fst (parseVector sampleRuntime ''CVSS:3.1AV:N/AC:L/PR:N/UI:N/S:U/C:H/I:H/A:H'' initialState)
       = Alert (MissingMetric ''AV'')"
proof -
  let ?v = "''CVSS:3.1/AV:N:X/AC:L/PR:N/UI:N/S:U/C:H/I:H/A:H''"
  have p: "parsedState ?v = \<lparr>currentVersion = 3, currentMetrics = scenario1\<rparr>"
    by (simp add: parsedState_def parse_eval scenario1_def)
  have u: "updateUI sampleRuntime (parsedState ?v) = None"
    unfolding p by (rule updateUI_PR) (simp add: scenario1_def)
  have "parseVector sampleRuntime ?v initialState = (Done, parsedState ?v)"
    unfolding parseVector_unfold u by (simp add: parse_eval)
  then have 1: "parseVector sampleRuntime ?v initialState
      = (Done, \<lparr>currentVersion = 3, currentMetrics = scenario1\<rparr>)"
    unfolding p .
  have 2: "fst (parseVector sampleRuntime ''CVSS:3.1AV:N/AC:L/PR:N/UI:N/S:U/C:H/I:H/A:H'' initialState)
       = Alert (MissingMetric ''AV'')"
    unfolding parseVector_unfold by (simp add: parse_eval)
  show ?thesis
    unfolding 1 2 by (simp add: parse_eval specSplitOnce_def specSegments_def)
qed

text \<open>
  Claim C7, amended.  The trimmed input is split at every \<open>/\<close> and the first piece, which
  holds the prefix, is dropped.  Of each other segment the key is the text before the
  first colon and the value the text between the first colon and the second one (or the
  end); the segment is used if both are non-empty and skipped otherwise.  The extracted
  metrics are the pairs of the segments used, a later pair overriding an earlier one; a
  skipped segment changes nothing, and the only alert after a recognised prefix is
  \<open>MissingMetric\<close> for a key left absent.
\<close>

theorem segment_extraction:
  "(\<exists>first. js_split CHR ''/'' (js_trim input) = first # segments input)
   \<and> keyValuePair seg =
       (let key = takeWhile (\<lambda>c. c \<noteq> CHR '':'') seg;
            v = takeWhile (\<lambda>c. c \<noteq> CHR '':'') (tl (dropWhile (\<lambda>c. c \<noteq> CHR '':'') seg))
        in if key \<noteq> [] \<and> v \<noteq> [] then Some (key, v) else None)
   \<and> (\<forall>k. k \<noteq> ''__proto__'' \<longrightarrow>
          extracted input k = map_of (rev (List.map_filter keyValuePair (segments input))) k)
   \<and> (keyValuePair seg = None \<longrightarrow> parseParts (xs @ seg # ys) nm = parseParts (xs @ ys) nm)
   \<and> (recognised (js_trim input) \<longrightarrow>
        (\<forall>e. fst (parseVector rt input st) = Alert e \<longrightarrow>
           (\<exists>k. e = MissingMetric k \<and> extracted input k = None)))"
proof (intro conjI allI impI)
  show "\<exists>first. js_split CHR ''/'' (js_trim input) = first # segments input"
    using js_split_not_Nil[of "CHR ''/''" "js_trim input"]
    by (cases "js_split CHR ''/'' (js_trim input)") (simp_all add: segments_def)
  show "keyValuePair seg =
       (let key = takeWhile (\<lambda>c. c \<noteq> CHR '':'') seg;
            v = takeWhile (\<lambda>c. c \<noteq> CHR '':'') (tl (dropWhile (\<lambda>c. c \<noteq> CHR '':'') seg))
        in if key \<noteq> [] \<and> v \<noteq> [] then Some (key, v) else None)"
    by (rule keyValuePair_takeWhile)
next
  fix k :: string
  assume "k \<noteq> ''__proto__''"
  then show "extracted input k = map_of (rev (List.map_filter keyValuePair (segments input))) k"
    by (simp add: extracted_def parseParts_map_of split: option.splits)
next
  assume "keyValuePair seg = None"
  then show "parseParts (xs @ seg # ys) nm = parseParts (xs @ ys) nm"
    by (simp add: parseParts_append parseParts_Cons del: parseParts.simps(2))
next
  fix e
  assume r: "recognised (js_trim input)" and e: "fst (parseVector rt input st) = Alert e"
  from e obtain k where k: "e = MissingMetric k"
      "firstMissing (required (versionOf (js_trim input))) (extracted input) = Some k"
    unfolding parseVector_alerts[OF r] by auto
  from k(2) have "extracted input k = None"
    unfolding firstMissing_Some by (auto simp add: extracted_truthy)
  with k(1) show "\<exists>k. e = MissingMetric k \<and> extracted input k = None"
    by blast
qed

theorem segment_extraction_witness:
  "keyValuePair ''FOO'' = None
   \<and> recognised (js_trim ''CVSS:3.1/AV:N/FOO/AC:L//PR:N/:x/UI:N/S:U/y:/C:H/I:H/A:H:L'')
   \<and> segments ''CVSS:3.1/AV:N/FOO/AC:L//PR:N/:x/UI:N/S:U/y:/C:H/I:H/A:H:L''
       = [''AV:N'', ''FOO'', ''AC:L'', [], ''PR:N'', '':x'', ''UI:N'', ''S:U'', ''y:'', ''C:H'', ''I:H'', ''A:H:L'']
   \<and> List.map_filter keyValuePair [''AV:N'', ''FOO'', ''AC:L'', [], ''PR:N'', '':x'', ''UI:N'', ''S:U'', ''y:'', ''C:H'', ''I:H'', ''A:H:L'']
       = [(''AV'', ''N''), (''AC'', ''L''), (''PR'', ''N''), (''UI'', ''N''), (''S'', ''U''),
          (''C'', ''H''), (''I'', ''H''), (''A'', ''H'')]
   \<and> extracted ''CVSS:3.1/AV:N/FOO/AC:L//PR:N/:x/UI:N/S:U/y:/C:H/I:H/A:H:L'' ''A'' = Some ''H''
   \<and> parseParts ([''AV:N''] @ ''FOO'' # [''AC:L'']) Map.empty = parseParts ([''AV:N''] @ [''AC:L'']) Map.empty
   \<and> fst (parseVector sampleRuntime ''CVSS:3.1/AV:N/FOO/AC:L//PR:N/:x/UI:N/S:U/y:/C:H/I:H/A:H:L'' initialState) = Done"
proof -
  let ?v = "''CVSS:3.1/AV:N/FOO/AC:L//PR:N/:x/UI:N/S:U/y:/C:H/I:H/A:H:L''"
  note t = segment_extraction [of ?v "''FOO''" "[''AV:N'']" "[''AC:L'']" Map.empty sampleRuntime initialState]
  have foo: "keyValuePair ''FOO'' = None"
    by (simp add: parse_eval)
  have r: "recognised (js_trim ?v)"
    by (simp add: parse_eval)
  have s: "segments ?v
       = [''AV:N'', ''FOO'', ''AC:L'', [], ''PR:N'', '':x'', ''UI:N'', ''S:U'', ''y:'', ''C:H'', ''I:H'', ''A:H:L'']"
    by (simp add: parse_eval)
  have mf: "List.map_filter keyValuePair [''AV:N'', ''FOO'', ''AC:L'', [], ''PR:N'', '':x'', ''UI:N'', ''S:U'', ''y:'', ''C:H'', ''I:H'', ''A:H:L'']
       = [(''AV'', ''N''), (''AC'', ''L''), (''PR'', ''N''), (''UI'', ''N''), (''S'', ''U''),
          (''C'', ''H''), (''I'', ''H''), (''A'', ''H'')]"
    by (simp add: parse_eval)
  from t have "extracted ?v ''A'' = map_of (rev (List.map_filter keyValuePair (segments ?v))) ''A''"
    by simp
  then have a: "extracted ?v ''A'' = Some ''H''"
    unfolding s mf by simp
  from t foo have p: "parseParts ([''AV:N''] @ ''FOO'' # [''AC:L'']) Map.empty = parseParts ([''AV:N''] @ [''AC:L'']) Map.empty"
    by blast
  have f: "firstMissing (required (versionOf (js_trim ?v))) (extracted ?v) = None"
    by (simp add: parse_eval)
  have u: "updateUI sampleRuntime (parsedState ?v) = None"
    by (rule updateUI_parsed_None) (simp add: parse_eval)
  have n: "fst (parseVector sampleRuntime ?v initialState) = Done"
    unfolding parseVector_outcome[OF r] f u by simp
  show ?thesis
    using foo r s mf a p n by blast
qed

text \<open>
  Claim C10 fails where a required key has no segment: the vector \<open>CVSS:3.1/AV:L/AV:N\<close>
  has the key AV in two well-formed segments, and an alert is raised, for the key AC.
\<close>

theorem duplicate_key_counterexample:
  "recognised (js_trim ''CVSS:3.1/AV:L/AV:N'')
   \<and> segments ''CVSS:3.1/AV:L/AV:N'' = [''AV:L'', ''AV:N'']
   \<and> keyValuePair ''AV:L'' = Some (''AV'', ''L'')
   \<and> keyValuePair ''AV:N'' = Some (''AV'', ''N'')
   \<and> parseVector sampleRuntime ''CVSS:3.1/AV:L/AV:N'' initialState
       = (Alert (MissingMetric ''AC''), initialState)"
  unfolding parseVector_unfold by (simp add: parse_eval initialState_def)

text \<open>
  Claim C10, amended.  Let the prefix be recognised and let \<open>seg\<close> be the last segment
  that gives the key \<open>k\<close> a value, whatever segments came before it (\<open>__proto__\<close>, which
  JavaScript does not store, is not a metric key).  Then the extracted value of \<open>k\<close> is
  the value of \<open>seg\<close>, and no alert is raised about \<open>k\<close>: an alert, if any, is
  \<open>MissingMetric\<close> for another key, one that the extraction has left absent.  When every
  required key has a value, no alert is raised and the current metrics map \<open>k\<close> to the
  value of \<open>seg\<close>; the function then ends normally if the version is 4 or PR is N, L or H.
\<close>

theorem duplicate_key_last_wins:
  assumes "recognised (js_trim input)"
    and "segments input = xs @ seg # ys"
    and "keyValuePair seg = Some (k, v)"
    and "\<forall>s\<in>set ys. \<forall>v'. keyValuePair s \<noteq> Some (k, v')"
    and "k \<noteq> ''__proto__''"
  shows "extracted input k = Some v
       \<and> fst (parseVector rt input st) \<noteq> Alert (MissingMetric k)
       \<and> (\<forall>e. fst (parseVector rt input st) = Alert e \<longrightarrow>
            (\<exists>k'. e = MissingMetric k' \<and> k' \<noteq> k \<and> extracted input k' = None))
       \<and> (fst (parseVector rt input st) = Done \<longrightarrow>
            currentMetrics (snd (parseVector rt input st)) k = Some v)
       \<and> ((\<forall>k'\<in>set (required (versionOf (js_trim input))). extracted input k' \<noteq> None) \<longrightarrow>
            (\<forall>e. fst (parseVector rt input st) \<noteq> Alert e)
            \<and> currentMetrics (snd (parseVector rt input st)) k = Some v
            \<and> (versionOf (js_trim input) = 4
                 \<or> extracted input ''PR'' \<in> {Some ''N'', Some ''L'', Some ''H''} \<longrightarrow>
               fst (parseVector rt input st) = Done))"
proof -
  have later: "map_of (rev (List.map_filter keyValuePair ys)) k = None"
    using assms(4) by (rule map_filter_no_key)
  have "extracted input k = map_of (rev (List.map_filter keyValuePair (xs @ seg # ys))) k"
    using assms(5) by (simp add: extracted_def assms(2) parseParts_map_of split: option.splits)
  also have "\<dots> = Some v"
    using later assms(3) by (simp add: map_filter_append_list map_add_def)
  finally have x: "extracted input k = Some v" .
  have al: "\<exists>k'. e = MissingMetric k' \<and> k' \<noteq> k \<and> extracted input k' = None"
    if "fst (parseVector rt input st) = Alert e" for e
  proof -
    from that obtain k' where k': "e = MissingMetric k'"
        "firstMissing (required (versionOf (js_trim input))) (extracted input) = Some k'"
      unfolding parseVector_alerts[OF assms(1)] by auto
    from k'(2) have "extracted input k' = None"
      unfolding firstMissing_Some by (auto simp add: extracted_truthy)
    with x k'(1) show ?thesis
      by auto
  qed
  have m: "fst (parseVector rt input st) \<noteq> Alert (MissingMetric k)"
    using al[of "MissingMetric k"] by auto
  have d: "fst (parseVector rt input st) = Done \<longrightarrow>
      currentMetrics (snd (parseVector rt input st)) k = Some v"
    using parseVector_Done[OF assms(1), of rt st] x by (auto simp add: parsedState_def)
  have a: "(\<forall>e. fst (parseVector rt input st) \<noteq> Alert e)
      \<and> currentMetrics (snd (parseVector rt input st)) k = Some v
      \<and> (versionOf (js_trim input) = 4
           \<or> extracted input ''PR'' \<in> {Some ''N'', Some ''L'', Some ''H''} \<longrightarrow>
         fst (parseVector rt input st) = Done)"
    if "\<forall>k'\<in>set (required (versionOf (js_trim input))). extracted input k' \<noteq> None"
  proof -
    from that have n: "firstMissing (required (versionOf (js_trim input))) (extracted input) = None"
      by (simp add: firstMissing_None extracted_truthy)
    have 1: "\<forall>e. fst (parseVector rt input st) \<noteq> Alert e"
      unfolding parseVector_alerts[OF assms(1)] n by simp
    have 2: "currentMetrics (snd (parseVector rt input st)) k = Some v"
      using parseVector_state[OF assms(1) n, of rt st] x by (simp add: parsedState_def)
    have 3: "fst (parseVector rt input st) = Done"
      if "versionOf (js_trim input) = 4
           \<or> extracted input ''PR'' \<in> {Some ''N'', Some ''L'', Some ''H''}"
      using updateUI_parsed_None[OF that, of rt]
      unfolding parseVector_outcome[OF assms(1)] n by simp
    from 1 2 3 show ?thesis by blast
  qed
  from x m al d a show ?thesis by blast
qed

theorem duplicate_key_last_wins_witness:
  "recognised (js_trim ''CVSS:3.1/AV:L/AC:L/PR:N/UI:N/AV:P/S:U/C:H/I:H/AV:N/A:H'')
   \<and> segments ''CVSS:3.1/AV:L/AC:L/PR:N/UI:N/AV:P/S:U/C:H/I:H/AV:N/A:H''
       = [''AV:L'', ''AC:L'', ''PR:N'', ''UI:N'', ''AV:P'', ''S:U'', ''C:H'', ''I:H''] @ ''AV:N'' # [''A:H'']
   \<and> fst (parseVector sampleRuntime ''CVSS:3.1/AV:L/AC:L/PR:N/UI:N/AV:P/S:U/C:H/I:H/AV:N/A:H'' initialState) = Done
   \<and> currentMetrics (snd (parseVector sampleRuntime ''CVSS:3.1/AV:L/AC:L/PR:N/UI:N/AV:P/S:U/C:H/I:H/AV:N/A:H'' initialState))
        ''AV'' = Some ''N''"
proof -
  let ?v = "''CVSS:3.1/AV:L/AC:L/PR:N/UI:N/AV:P/S:U/C:H/I:H/AV:N/A:H''"
  have r: "recognised (js_trim ?v)"
    by (simp add: parse_eval)
  have s: "segments ?v = [''AV:L'', ''AC:L'', ''PR:N'', ''UI:N'', ''AV:P'', ''S:U'', ''C:H'', ''I:H''] @ ''AV:N'' # [''A:H'']"
    by (simp add: parse_eval)
  have kv: "keyValuePair ''AV:N'' = Some (''AV'', ''N'')"
    by (simp add: parse_eval)
  have l: "\<forall>s\<in>set [''A:H'']. \<forall>v'. keyValuePair s \<noteq> Some (''AV'', v')"
    by (simp add: parse_eval)
  have a: "\<forall>k'\<in>set (required (versionOf (js_trim ?v))). extracted ?v k' \<noteq> None"
    by (simp add: parse_eval)
  have pr: "extracted ?v ''PR'' \<in> {Some ''N'', Some ''L'', Some ''H''}"
    by (simp add: parse_eval)
  from duplicate_key_last_wins [OF r s kv l, of sampleRuntime initialState] a pr
  have "fst (parseVector sampleRuntime ?v initialState) = Done
      \<and> currentMetrics (snd (parseVector sampleRuntime ?v initialState)) ''AV'' = Some ''N''"
    by blast
  then show ?thesis
    using r s by simp
qed

section \<open>Conversion between the versions\<close>

lemma maxImpact_legal:
  assumes "a \<in> {Some ''N'', Some ''L'', Some ''H''}" "b \<in> {Some ''N'', Some ''L'', Some ''H''}"
  shows "maxImpact rt a b \<in> {a, b}
       \<and> impactRank (maxImpact rt a b) = max (impactRank a) (impactRank b)"
  using assms
  by (auto simp add: maxImpact_def maxImpact_order_def getProp_def str_def impactRank_def rnd_order)

lemma legalV4_scopeChangedV4: "legalV4 scopeChangedV4"
  by (auto simp add: legalV4_def scopeChangedV4_def requiredV4_def)

lemma legalV4_scopeChangedPassiveV4: "legalV4 scopeChangedPassiveV4"
  by (auto simp add: legalV4_def scopeChangedV4_def scopeChangedPassiveV4_def requiredV4_def)

text \<open>
  Claim C9.  From a legal V3 metric set with Scope U and UI N the conversion gives AT N,
  UI N, VC, VI, VA equal to C, I, A, SC, SI, SA all N, and the AT note as the only note.
  With Scope C, the triad C, I, A is copied into VC, VI, VA and into SC, SI, SA.
\<close>

theorem v3ToV4:
  assumes "legalV3 m"
  shows "(m ''S'' = Some ''U'' \<and> m ''UI'' = Some ''N'' \<longrightarrow>
            (let r = fst (convertMetrics rt \<lparr>currentVersion = 3, currentMetrics = m\<rparr>);
                 notes = snd (convertMetrics rt \<lparr>currentVersion = 3, currentMetrics = m\<rparr>)
             in r ''AT'' = Some ''N'' \<and> r ''UI'' = Some ''N''
                \<and> r ''VC'' = m ''C'' \<and> r ''VI'' = m ''I'' \<and> r ''VA'' = m ''A''
                \<and> r ''SC'' = Some ''N'' \<and> r ''SI'' = Some ''N'' \<and> r ''SA'' = Some ''N''
                \<and> notes = [''AT (Attack Requirements) set to None - no v3 equivalent.'']))
       \<and> (m ''S'' = Some ''C'' \<longrightarrow>
            (let r = fst (convertMetrics rt \<lparr>currentVersion = 3, currentMetrics = m\<rparr>)
             in r ''VC'' = m ''C'' \<and> r ''VI'' = m ''I'' \<and> r ''VA'' = m ''A''
                \<and> r ''SC'' = m ''C'' \<and> r ''SI'' = m ''I'' \<and> r ''SA'' = m ''A''))"
  by (simp add: convertMetrics_def Let_def)

theorem v3ToV4_witness:
  "legalV3 scenario1 \<and> scenario1 ''S'' = Some ''U'' \<and> scenario1 ''UI'' = Some ''N''
   \<and> snd (convertMetrics sampleRuntime \<lparr>currentVersion = 3, currentMetrics = scenario1\<rparr>)
        = [''AT (Attack Requirements) set to None - no v3 equivalent.'']
   \<and> fst (convertVector sampleRuntime \<lparr>currentVersion = 3, currentMetrics = scenario1\<rparr>)
        = ''CVSS:4.0/AV:N/AC:L/AT:N/PR:N/UI:N/VC:H/VI:H/VA:H/SC:N/SI:N/SA:N''
   \<and> legalV3 scenario3 \<and> scenario3 ''S'' = Some ''C''
   \<and> fst (convertMetrics sampleRuntime \<lparr>currentVersion = 3, currentMetrics = scenario3\<rparr>) ''SC'' = Some ''L''"
proof -
  have u: "scenario1 ''S'' = Some ''U'' \<and> scenario1 ''UI'' = Some ''N''"
    by (simp add: scenario1_def)
  have c: "scenario3 ''S'' = Some ''C'' \<and> scenario3 ''C'' = Some ''L''"
    by (simp add: scenario3_def)
  have v: "fst (convertVector sampleRuntime \<lparr>currentVersion = 3, currentMetrics = scenario1\<rparr>)
        = ''CVSS:4.0/AV:N/AC:L/AT:N/PR:N/UI:N/VC:H/VI:H/VA:H/SC:N/SI:N/SA:N''"
    by (simp add: convertVector_def convertMetrics_def generateVector_def scenario1_def str_def Let_def)
  show ?thesis
    using v3ToV4 [OF legalV3_scenario1, of sampleRuntime] v3ToV4 [OF legalV3_scenario3, of sampleRuntime] u c v
      legalV3_scenario1 legalV3_scenario3
    by (simp add: Let_def)
qed

text \<open>
  Claim C8 fails on the number of notes: a legal V4 metric set with SC = H, VC = N and
  UI = P gets four notes.
\<close>

theorem v4ToV3_counterexample:
  "legalV4 scopeChangedPassiveV4
   \<and> scopeChangedPassiveV4 ''SC'' = Some ''H'' \<and> scopeChangedPassiveV4 ''VC'' = Some ''N''
   \<and> length (snd (convertMetrics sampleRuntime \<lparr>currentVersion = 4, currentMetrics = scopeChangedPassiveV4\<rparr>)) = 4"
  using legalV4_scopeChangedPassiveV4
  by (simp add: convertMetrics_def scopeChangedPassiveV4_def scopeChangedV4_def Let_def)

text \<open>
  Claim C8, amended.  From a legal V4 metric set the conversion gives Scope C if one of
  SC, SI, SA is not N, and Scope U otherwise; C, I, A are the maxima of (VC, SC),
  (VI, SI), (VA, SA) in the order N < L < H.  With SC = H and VC = N the result has
  Scope C and C = H; its notes are the three notes (Scope changed, AT dropped, impacts
  merged) when UI = N, and these three after a UI note otherwise.
\<close>

theorem v4ToV3:
  assumes "legalV4 m"
  shows "(let r = fst (convertMetrics rt \<lparr>currentVersion = 4, currentMetrics = m\<rparr>);
              notes = snd (convertMetrics rt \<lparr>currentVersion = 4, currentMetrics = m\<rparr>)
          in (r ''S'' = Some ''C'' \<longleftrightarrow>
                m ''SC'' \<noteq> Some ''N'' \<or> m ''SI'' \<noteq> Some ''N'' \<or> m ''SA'' \<noteq> Some ''N'')
           \<and> (r ''S'' = Some ''U'' \<longleftrightarrow>
                m ''SC'' = Some ''N'' \<and> m ''SI'' = Some ''N'' \<and> m ''SA'' = Some ''N'')
           \<and> r ''C'' \<in> {m ''VC'', m ''SC''}
           \<and> impactRank (r ''C'') = max (impactRank (m ''VC'')) (impactRank (m ''SC''))
           \<and> r ''I'' \<in> {m ''VI'', m ''SI''}
           \<and> impactRank (r ''I'') = max (impactRank (m ''VI'')) (impactRank (m ''SI''))
           \<and> r ''A'' \<in> {m ''VA'', m ''SA''}
           \<and> impactRank (r ''A'') = max (impactRank (m ''VA'')) (impactRank (m ''SA''))
           \<and> (m ''SC'' = Some ''H'' \<and> m ''VC'' = Some ''N'' \<longrightarrow>
                r ''S'' = Some ''C'' \<and> r ''C'' = Some ''H''
                \<and> (m ''UI'' = Some ''N'' \<longrightarrow>
                     notes = [''Subsequent system impacts detected - Scope set to Changed.'',
                              ''AT (Attack Requirements) metric has no v3 equivalent and was dropped.'',
                              ''Impact metrics merged from Vulnerable and Subsequent systems (using maximum).''])
                \<and> (m ''UI'' \<noteq> Some ''N'' \<longrightarrow>
                     notes = [''UI:P or UI:A mapped to UI:R (Required). v3 has less granularity.'',
                              ''Subsequent system impacts detected - Scope set to Changed.'',
                              ''AT (Attack Requirements) metric has no v3 equivalent and was dropped.'',
                              ''Impact metrics merged from Vulnerable and Subsequent systems (using maximum).''])))"
proof -
  have c: "maxImpact rt (m ''VC'') (m ''SC'') \<in> {m ''VC'', m ''SC''}
      \<and> impactRank (maxImpact rt (m ''VC'') (m ''SC'')) = max (impactRank (m ''VC'')) (impactRank (m ''SC''))"
    using assms by (intro maxImpact_legal) (simp_all add: legalV4_def)
  have i: "maxImpact rt (m ''VI'') (m ''SI'') \<in> {m ''VI'', m ''SI''}
      \<and> impactRank (maxImpact rt (m ''VI'') (m ''SI'')) = max (impactRank (m ''VI'')) (impactRank (m ''SI''))"
    using assms by (intro maxImpact_legal) (simp_all add: legalV4_def)
  have a: "maxImpact rt (m ''VA'') (m ''SA'') \<in> {m ''VA'', m ''SA''}
      \<and> impactRank (maxImpact rt (m ''VA'') (m ''SA'')) = max (impactRank (m ''VA'')) (impactRank (m ''SA''))"
    using assms by (intro maxImpact_legal) (simp_all add: legalV4_def)
  have h: "maxImpact rt (Some ''N'') (Some ''H'') = Some ''H''"
    by (simp add: maxImpact_def maxImpact_order_def getProp_def str_def rnd_order)
  show ?thesis
    using c i a h by (simp add: convertMetrics_def Let_def)
qed

theorem v4ToV3_witness:
  "legalV4 scopeChangedV4 \<and> scopeChangedV4 ''SC'' = Some ''H'' \<and> scopeChangedV4 ''VC'' = Some ''N''
   \<and> scopeChangedV4 ''UI'' = Some ''N''
   \<and> fst (convertMetrics sampleRuntime \<lparr>currentVersion = 4, currentMetrics = scopeChangedV4\<rparr>) ''S'' = Some ''C''
   \<and> fst (convertMetrics sampleRuntime \<lparr>currentVersion = 4, currentMetrics = scopeChangedV4\<rparr>) ''C'' = Some ''H''
   \<and> length (snd (convertMetrics sampleRuntime \<lparr>currentVersion = 4, currentMetrics = scopeChangedV4\<rparr>)) = 3
   \<and> fst (convertVector sampleRuntime \<lparr>currentVersion = 4, currentMetrics = scopeChangedV4\<rparr>)
        = ''CVSS:3.1/AV:N/AC:L/PR:N/UI:N/S:C/C:H/I:N/A:N''"
proof -
  have f: "scopeChangedV4 ''SC'' = Some ''H'' \<and> scopeChangedV4 ''VC'' = Some ''N''
      \<and> scopeChangedV4 ''UI'' = Some ''N''"
    by (simp add: scopeChangedV4_def)
  have v: "fst (convertVector sampleRuntime \<lparr>currentVersion = 4, currentMetrics = scopeChangedV4\<rparr>)
        = ''CVSS:3.1/AV:N/AC:L/PR:N/UI:N/S:C/C:H/I:N/A:N''"
    by (simp add: convertVector_def convertMetrics_def generateVector_def scopeChangedV4_def str_def
        Let_def maxImpact_def maxImpact_order_def getProp_def rnd_order)
  show ?thesis
    using v4ToV3 [OF legalV4_scopeChangedV4, of sampleRuntime] f v legalV4_scopeChangedV4
    by (simp add: Let_def)
qed


end
